theory Spec2Isabelle
  imports Complex_Main
begin

section \<open>Flood detector (plugins/antiflood\_plugin.py)\<close>

text \<open>
  The antispam configuration is the dictionary returned by \<open>get_antispam_config\<close>.
  The process-wide dictionary \<open>flood_control\<close> maps a key \<open>(chat_id, user_id)\<close> to a
  deque of timestamps, oldest at the left.  Timestamps are the values of \<open>time.time()\<close>,
  taken here as real numbers; the current time is an argument of the model.
\<close>

record antispam_config =
  enabled :: bool
  max_messages :: int
  window_seconds :: int

type_synonym flood_control = "(int \<times> int) \<rightharpoonup> real list"

text \<open>
  The eviction loop
  \<^verbatim>\<open>while flood_control[key] and current_time - flood_control[key][0] > window_seconds:
      flood_control[key].popleft()\<close>
  looks at the left end only and stops at the first timestamp that is not too old.
\<close>

fun popleft_old :: "real \<Rightarrow> int \<Rightarrow> real list \<Rightarrow> real list" where
  "popleft_old current_time w [] = []"
| "popleft_old current_time w (t # ts) =
     (if current_time - t > real_of_int w then popleft_old current_time w ts else t # ts)"

definition is_flooding ::
  "antispam_config \<Rightarrow> flood_control \<Rightarrow> int \<Rightarrow> int \<Rightarrow> real \<Rightarrow> bool \<times> flood_control" where
  "is_flooding config fc chat_id user_id current_time =
     (if \<not> enabled config then (False, fc)
      else
        let key = (chat_id, user_id);
            q = (case fc key of None \<Rightarrow> [] | Some d \<Rightarrow> d) @ [current_time];
            q' = popleft_old current_time (window_seconds config) q;
            message_count = int (length q')
        in (message_count > max_messages config, fc(key \<mapsto> q')))"

text \<open>A timestamp is inside the window when it is not strictly older than
  \<open>now - window_seconds\<close>.\<close>

definition in_window :: "real \<Rightarrow> int \<Rightarrow> real \<Rightarrow> bool" where
  "in_window now w t = (\<not> t < now - real_of_int w)"

definition recorded :: "flood_control \<Rightarrow> int \<Rightarrow> int \<Rightarrow> real list" where
  "recorded fc chat_id user_id = (case fc (chat_id, user_id) of None \<Rightarrow> [] | Some d \<Rightarrow> d)"

section \<open>Content filter (plugins/blacklist\_plugin.py)\<close>

text \<open>
  The filter works on Python strings, which are sequences of Unicode code points.  It
  uses three things of the runtime: \<open>str.lower\<close>, \<open>str.strip\<close> and the string literals of
  the command list.  The model keeps the type of characters open (\<open>'c\<close>) and takes the
  three as parameters, so that what is proved of the filter holds for the strings of
  Python with its own \<open>lower\<close> and \<open>strip\<close>; \<open>str_literal\<close> gives the string that a
  literal of the source text denotes.
\<close>

record 'c py_str =
  str_lower :: "'c list \<Rightarrow> 'c list"
  str_strip :: "'c list \<Rightarrow> 'c list"
  str_literal :: "string \<Rightarrow> 'c list"

definition startswith :: "'c list \<Rightarrow> 'c list \<Rightarrow> bool" where
  "startswith s p = (take (length p) s = p)"

text \<open>\<open>py_in p s\<close> is Python's \<open>p in s\<close> on strings: \<open>p\<close> occurs in \<open>s\<close> as a
  contiguous substring.\<close>

fun py_in :: "'c list \<Rightarrow> 'c list \<Rightarrow> bool" where
  "py_in p [] = (p = [])"
| "py_in p (c # cs) = (startswith (c # cs) p \<or> py_in p cs)"

text \<open>The module's globals \<open>ANTIMAT_ENABLED\<close>, \<open>ANTIMAT_WARNINGS_ENABLED\<close>,
  \<open>blacklist_words\<close> and \<open>blacklist_links\<close>.\<close>

record 'c antimat_config =
  antimat_enabled :: bool
  warnings_enabled :: bool
  blacklist_words :: "'c list list"
  blacklist_links :: "'c list list"

definition commands :: "string list" where
  "commands =
     [''/start'', ''/help'', ''/ping'', ''/set_name_topic'', ''/stats'', ''/rep'', ''/top'',
      ''/delete'', ''/poll'', ''/mute'', ''/unmute'', ''/invites'', ''/kick'', ''/ban'',
      ''/warn'', ''/admin'']"

text \<open>
  \<open>is_command\<close> is the test both \<open>is_blacklisted_content\<close> and the middleware make:
  \<^verbatim>\<open>text_lower = text.lower().strip()\<close> and then, for each command,
  \<^verbatim>\<open>text_lower.startswith(command.lower())\<close>.
\<close>

definition is_command :: "'c py_str \<Rightarrow> 'c list \<Rightarrow> bool" where
  "is_command S text =
     (\<exists>command \<in> set commands.
        startswith (str_strip S (str_lower S text)) (str_lower S (str_literal S command)))"

definition is_blacklisted_content :: "'c py_str \<Rightarrow> 'c antimat_config \<Rightarrow> 'c list \<Rightarrow> bool" where
  "is_blacklisted_content S cfg text =
     (if text = [] \<or> \<not> antimat_enabled cfg then False
      else if is_command S text then False
      else if \<exists>word \<in> set (blacklist_words cfg). py_in word (str_lower S text) then True
      else if \<exists>link \<in> set (blacklist_links cfg). py_in link (str_lower S text) then True
      else False)"

text \<open>The test the spec words: the lower-cased text itself starts with a command.\<close>

definition starts_with_command :: "'c py_str \<Rightarrow> 'c list \<Rightarrow> bool" where
  "starts_with_command S text =
     (\<exists>command \<in> set commands.
        startswith (str_lower S text) (str_lower S (str_literal S command)))"

subsection \<open>Strings of code points\<close>

text \<open>
  For the examples, strings are lists of code points.  \<open>py_whitespace\<close> lists the code
  points that \<open>str.strip\<close> removes: the characters for which \<open>str.isspace\<close> holds.
  \<open>cp_lower\<close> is \<open>str.lower\<close> on the capital letters of the blocks Basic Latin,
  Latin-1 Supplement and Cyrillic up to U+042F; the examples contain no other capital
  letter.
\<close>

definition py_whitespace :: "nat list" where
  "py_whitespace =
     [0x09, 0x0A, 0x0B, 0x0C, 0x0D, 0x1C, 0x1D, 0x1E, 0x1F, 0x20, 0x85, 0xA0, 0x1680,
      0x2000, 0x2001, 0x2002, 0x2003, 0x2004, 0x2005, 0x2006, 0x2007, 0x2008, 0x2009, 0x200A,
      0x2028, 0x2029, 0x202F, 0x205F, 0x3000]"

definition cp_strip :: "nat list \<Rightarrow> nat list" where
  "cp_strip s =
     rev (dropWhile (\<lambda>c. c \<in> set py_whitespace)
            (rev (dropWhile (\<lambda>c. c \<in> set py_whitespace) s)))"

definition cp_lower :: "nat \<Rightarrow> nat" where
  "cp_lower c =
     (if 0x41 \<le> c \<and> c \<le> 0x5A then c + 32
      else if 0xC0 \<le> c \<and> c \<le> 0xDE \<and> c \<noteq> 0xD7 then c + 32
      else if 0x400 \<le> c \<and> c \<le> 0x40F then c + 80
      else if 0x410 \<le> c \<and> c \<le> 0x42F then c + 32
      else c)"

definition code_points :: "nat py_str" where
  "code_points =
     \<lparr>str_lower = map cp_lower, str_strip = cp_strip, str_literal = map of_char\<rparr>"

text \<open>The Russian words of the default configuration and of the spec's examples, as code
  points: \<open>durak\<close> in small and in capital letters, \<open>loh\<close>, and \<open>ty\<close>.\<close>

definition word_durak :: "nat list" where
  "word_durak = [0x434, 0x443, 0x440, 0x430, 0x43A]"

definition word_DURAK :: "nat list" where
  "word_DURAK = [0x414, 0x423, 0x420, 0x410, 0x41A]"

definition word_loh :: "nat list" where
  "word_loh = [0x43B, 0x43E, 0x445]"

definition word_ty :: "nat list" where
  "word_ty = [0x442, 0x44B]"

definition default_antimat :: "nat antimat_config" where
  "default_antimat =
     \<lparr>antimat_enabled = True, warnings_enabled = True,
      blacklist_words = [word_durak, word_loh],
      blacklist_links = [map of_char ''t.me/'', map of_char ''http://'', map of_char ''https://'']\<rparr>"

subsection \<open>Strings of 8-bit characters\<close>

text \<open>
  The handlers below carry texts, names and tokens as strings of 8-bit characters.  On
  them \<open>py_lower\<close> maps the letters A to Z to a to z, and \<open>py_strip\<close> removes the white
  space below 128 (tab, line feed, vertical tab, form feed, carriage return, the separators
  28 to 31 and the blank) at both ends.
\<close>

definition char_lower :: "char \<Rightarrow> char" where
  "char_lower c =
     (case map_of (zip ''ABCDEFGHIJKLMNOPQRSTUVWXYZ'' ''abcdefghijklmnopqrstuvwxyz'') c of
        Some l \<Rightarrow> l
      | None \<Rightarrow> c)"

definition py_lower :: "string \<Rightarrow> string" where
  "py_lower s = map char_lower s"

definition is_space :: "char \<Rightarrow> bool" where
  "is_space c =
     (c \<in> set [CHR 0x09, CHR 0x0A, CHR 0x0B, CHR 0x0C, CHR 0x0D,
                CHR 0x1C, CHR 0x1D, CHR 0x1E, CHR 0x1F, CHR '' ''])"

definition py_strip :: "string \<Rightarrow> string" where
  "py_strip s = rev (dropWhile is_space (rev (dropWhile is_space s)))"

definition ascii :: "char py_str" where
  "ascii = \<lparr>str_lower = py_lower, str_strip = py_strip, str_literal = (\<lambda>s. s)\<rparr>"

section \<open>The chat transport, the store and the process state\<close>

text \<open>
  A call of the transport (a method of \<open>bot\<close>, \<open>message\<close> or \<open>callback\<close>) returns, or
  raises \<open>TelegramBadRequest\<close> or \<open>TelegramForbiddenError\<close> (the two classes the handlers
  name, never told apart: \<open>Refused\<close>), or raises an exception of another class
  (\<open>Failed\<close>).  A query of the store finds a row, finds none, or raises.
\<close>

datatype 'a outcome = Ok 'a | Refused | Failed

datatype 'a query = Found 'a | NotFound | DbError

datatype exn = TelegramError | OtherException

datatype result = Returned | Raised exn

datatype member_status = Creator | Administrator | Member | Restricted | Left | Kicked

record chat_permissions =
  can_send_messages :: bool
  can_send_media_messages :: bool
  can_send_polls :: bool
  can_send_other_messages :: bool
  can_add_web_page_previews :: bool
  can_change_info :: bool
  can_invite_users :: bool
  can_pin_messages :: bool

definition restricted_permissions :: chat_permissions where
  "restricted_permissions =
     \<lparr>can_send_messages = False, can_send_media_messages = False, can_send_polls = False,
      can_send_other_messages = False, can_add_web_page_previews = False,
      can_change_info = False, can_invite_users = False, can_pin_messages = False\<rparr>"

definition normal_permissions :: chat_permissions where
  "normal_permissions =
     \<lparr>can_send_messages = True, can_send_media_messages = True, can_send_polls = True,
      can_send_other_messages = True, can_add_web_page_previews = True,
      can_change_info = False, can_invite_users = False, can_pin_messages = False\<rparr>"

text \<open>The texts the bot sends, one constructor for each literal of the source; the
  argument is the name or number formatted into the text.\<close>

datatype notice =
    NoRights
  | UserNotFound string
  | SpecifyUser
  | CannotWarnAdmin
  | FirstWarning string
  | SecondWarning string
  | BannedForWarnings string
  | BanFailed
  | WarnError
  | CannotMuteAdmin
  | MuteTimePositive
  | MutedFor string int
  | Unmuted string
  | MuteFailed
  | MuteError
  | CannotUnmuteAdmin
  | UnmuteFailed
  | UnmuteError
  | ContentDeleted
  | ContentForbidden
  | TooFast string
  | CaptchaBadData
  | OnlyThatUser
  | TimeExpired
  | WrongToken
  | Welcome string
  | Confirmed
  | ConfirmError

text \<open>
  What a handler does to the outside, in order: calls of the transport (whether they
  return or raise), background tasks created with \<open>asyncio.create_task\<close>, the
  cancellation of a user's kick task, waits of \<open>asyncio.sleep\<close> inside the handler, and writes
  to the store whose errors the source swallows.  \<open>Handled\<close> is left to the handlers of the
  examples, which mark with it that a later stage ran on a message.
\<close>

datatype effect =
    DeleteMessage int int
  | SendMessage int notice
  | BanChatMember int int
  | RestrictChatMember int int chat_permissions
  | AnswerCallback notice bool
  | DeleteAfter int int int
  | CancelKickTask int
  | Sleep int
  | SaveUser int "string option" string
  | RecordJoin int int
  | Handled int

record tg_user =
  tg_id :: int
  username :: "string option"
  first_name :: string

record db_user_row =
  telegram_id :: int
  db_username :: "string option"
  db_first_name :: "string option"

text \<open>A message of the \<open>message\<close> update: \<open>chat\<close> is \<open>message.chat.id\<close>;
  \<open>reply_to_message\<close> is \<open>None\<close> without a reply, and holds the replied message's
  \<open>from_user\<close> (which may be missing) otherwise.\<close>

record message =
  message_id :: int
  chat :: int
  from_user :: tg_user
  msg_text :: "string option"
  reply_to_message :: "tg_user option option"

text \<open>The surroundings of one handler run: the settings, the cached policy
  configurations, the string functions of the runtime on the handlers' texts, the clock,
  and what the transport and the store answer.\<close>

record env =
  ADMINS :: "int list"
  WARN_MESSAGE_DELETE_DELAY :: int
  MUTE_MESSAGE_DELETE_DELAY :: int
  antispam :: antispam_config
  antimat :: "char antimat_config"
  strings :: "char py_str"
  clock :: real
  tg :: "effect \<Rightarrow> int outcome"
  get_chat_member :: "int \<Rightarrow> int \<Rightarrow> member_status outcome"
  get_chat_administrators :: "int \<Rightarrow> tg_user list outcome"
  db_admin :: "int \<Rightarrow> string query"
  db_user :: "string \<Rightarrow> db_user_row query"

text \<open>An entry of \<open>pending_users\<close> (plugins/captcha\_plugin.py); \<open>kick_task\<close> tells
  whether the entry holds a task.\<close>

record pending =
  pending_chat_id :: int
  pending_message_id :: int
  kick_task :: bool
  token :: string

text \<open>The process-wide dictionaries \<open>flood_control\<close>, \<open>warns\<close> and \<open>pending_users\<close>,
  and the trace of effects so far.\<close>

record world =
  flood :: flood_control
  warns :: "int \<rightharpoonup> int"
  pending_users :: "int \<rightharpoonup> pending"
  trace :: "effect list"

definition emit :: "effect \<Rightarrow> world \<Rightarrow> world" where
  "emit c w = w\<lparr>trace := trace w @ [c]\<rparr>"

text \<open>A transport call: it is recorded, and the transport's answer comes back.\<close>

definition perform :: "env \<Rightarrow> effect \<Rightarrow> world \<Rightarrow> world \<times> int outcome" where
  "perform e c w = (emit c w, tg e c)"

text \<open>Python's truth value of an optional string, and \<open>a or b or "..."\<close> on names; the
  last literal of the source is a Russian word for "user".\<close>

definition truthy :: "string option \<Rightarrow> bool" where
  "truthy s = (case s of None \<Rightarrow> False | Some x \<Rightarrow> x \<noteq> [])"

definition default_name :: string where
  "default_name = ''Polzovatel''"

definition name_or :: "string option \<Rightarrow> string option \<Rightarrow> string" where
  "name_or a b =
     (case a of
        Some x \<Rightarrow> if x \<noteq> [] then x else (case b of Some y \<Rightarrow> if y \<noteq> [] then y else default_name | None \<Rightarrow> default_name)
      | None \<Rightarrow> (case b of Some y \<Rightarrow> if y \<noteq> [] then y else default_name | None \<Rightarrow> default_name))"

text \<open>\<^verbatim>\<open>re.search(r'@(\w+)', text)\<close>: the leftmost \<open>@\<close> that is followed by a word
  character, and the longest run of word characters after it.  Word characters are the
  letters, the digits and the underscore.\<close>

definition is_word_char :: "char \<Rightarrow> bool" where
  "is_word_char c =
     (c \<in> set ''abcdefghijklmnopqrstuvwxyzABCDEFGHIJKLMNOPQRSTUVWXYZ0123456789_'')"

fun find_mention :: "string \<Rightarrow> string option" where
  "find_mention [] = None"
| "find_mention (c # cs) =
     (if c = CHR ''@'' \<and> takeWhile is_word_char cs \<noteq> [] then Some (takeWhile is_word_char cs)
      else find_mention cs)"

definition mention_of :: "message \<Rightarrow> string option" where
  "mention_of m =
     (case msg_text m of None \<Rightarrow> None | Some t \<Rightarrow> if t = [] then None else find_mention t)"

section \<open>Administrator check (utils/admin\_utils.py)\<close>

text \<open>
  \<open>is_user_admin\<close> looks at the configured list, then at the stored administrators
  (an error of that query is printed and the check goes on), then at the member's status in
  the chat; an exception of \<open>get_chat_member\<close> makes the answer \<open>False\<close>.  The handlers
  always pass a session factory.
\<close>

definition is_user_admin :: "env \<Rightarrow> message \<Rightarrow> int \<Rightarrow> bool" where
  "is_user_admin e m uid =
     (if uid \<in> set (ADMINS e) then True
      else case db_admin e uid of
        Found role \<Rightarrow> True
      | _ \<Rightarrow>
        (case get_chat_member e (chat m) uid of
           Ok status \<Rightarrow> status = Creator \<or> status = Administrator
         | Refused \<Rightarrow> False
         | Failed \<Rightarrow> False))"

section \<open>Warnings (plugins/warn\_plugin.py)\<close>

text \<open>\<open>delete_command_message\<close> (the warn and the mute plugin define the same
  function): the command message is deleted; a refusal is ignored.\<close>

definition delete_command_message :: "env \<Rightarrow> message \<Rightarrow> world \<Rightarrow> world \<times> result" where
  "delete_command_message e m w =
     (case perform e (DeleteMessage (chat m) (message_id m)) w of
        (w', Failed) \<Rightarrow> (w', Raised OtherException)
      | (w', _) \<Rightarrow> (w', Returned))"

text \<open>\<open>send_and_auto_delete\<close> of the warn plugin: the text is sent and a background task
  is created that deletes it after the delay; every exception is swallowed.\<close>

definition warn_send_and_auto_delete :: "env \<Rightarrow> message \<Rightarrow> notice \<Rightarrow> int \<Rightarrow> world \<Rightarrow> world" where
  "warn_send_and_auto_delete e m n delay w =
     (case perform e (SendMessage (chat m) n) w of
        (w', Ok sent) \<Rightarrow> emit (DeleteAfter delay (chat m) sent) w'
      | (w', _) \<Rightarrow> w')"

text \<open>\<open>extract_user_info\<close> of the warn plugin: the mention first (looked up in the
  users table; an error of the query counts as not found), the replied message second.\<close>

definition warn_extract_user_info :: "env \<Rightarrow> message \<Rightarrow> int option \<times> string option" where
  "warn_extract_user_info e m =
     (case mention_of m of
        Some name \<Rightarrow>
          (case db_user e name of
             Found u \<Rightarrow> (Some (telegram_id u), Some (name_or (db_username u) (db_first_name u)))
           | _ \<Rightarrow> (None, Some name))
      | None \<Rightarrow>
          (case reply_to_message m of
             Some (Some target) \<Rightarrow>
               (Some (tg_id target), Some (name_or (username target) (Some (first_name target))))
           | _ \<Rightarrow> (None, None)))"

text \<open>Lines 125 to 156 of \<open>warn_command\<close>: the count is increased, then the notice or the
  ban.  \<open>uname\<close> is the name formatted into the texts (\<open>None\<close> prints as such).\<close>

definition shown :: "string option \<Rightarrow> string" where
  "shown uname = (case uname of None \<Rightarrow> ''None'' | Some n \<Rightarrow> n)"

definition warn_count :: "env \<Rightarrow> message \<Rightarrow> int \<Rightarrow> string option \<Rightarrow> world \<Rightarrow> world \<times> result" where
  "warn_count e m uid uname w =
     (let count = (case warns w uid of None \<Rightarrow> 0 | Some c \<Rightarrow> c) + 1;
          w1 = w\<lparr>warns := (warns w)(uid \<mapsto> count)\<rparr>;
          delay = WARN_MESSAGE_DELETE_DELAY e
      in if count = 1 then
           (warn_send_and_auto_delete e m (FirstWarning (shown uname)) delay w1, Returned)
         else if count = 2 then
           (warn_send_and_auto_delete e m (SecondWarning (shown uname)) delay w1, Returned)
         else if count \<ge> 3 then
           (case perform e (BanChatMember (chat m) uid) w1 of
              (w2, Ok _) \<Rightarrow>
                (let w3 = warn_send_and_auto_delete e m (BannedForWarnings (shown uname)) delay w2
                 in (w3\<lparr>warns := (warns w3)(uid := None)\<rparr>, Returned))
            | (w2, Refused) \<Rightarrow>
                (let w3 = warn_send_and_auto_delete e m BanFailed delay w2
                 in (w3\<lparr>warns := (warns w3)(uid := None)\<rparr>, Returned))
            | (w2, Failed) \<Rightarrow>
                (warn_send_and_auto_delete e m WarnError delay w2, Returned))
         else (w1, Returned))"

definition warn_command :: "env \<Rightarrow> message \<Rightarrow> world \<Rightarrow> world \<times> result" where
  "warn_command e m w =
     (case delete_command_message e m w of
        (w1, Raised x) \<Rightarrow> (w1, Raised x)
      | (w1, Returned) \<Rightarrow>
          let delay = WARN_MESSAGE_DELETE_DELAY e in
          if \<not> is_user_admin e m (tg_id (from_user m)) then
            (warn_send_and_auto_delete e m NoRights delay w1, Returned)
          else
            (case warn_extract_user_info e m of
               (Some uid, uname) \<Rightarrow>
                 if uid = 0 then
                   (if truthy uname
                    then (warn_send_and_auto_delete e m (UserNotFound (shown uname)) delay w1, Returned)
                    else (warn_send_and_auto_delete e m SpecifyUser delay w1, Returned))
                 else if is_user_admin e m uid then
                   (warn_send_and_auto_delete e m CannotWarnAdmin delay w1, Returned)
                 else warn_count e m uid uname w1
             | (None, uname) \<Rightarrow>
                 if truthy uname
                 then (warn_send_and_auto_delete e m (UserNotFound (shown uname)) delay w1, Returned)
                 else (warn_send_and_auto_delete e m SpecifyUser delay w1, Returned)))"

section \<open>Reading a trace\<close>

text \<open>The texts sent, the users banned and the permissions set, in the order of the
  trace; \<open>since w w'\<close> is what a handler that took \<open>w\<close> to \<open>w'\<close> added to the trace.\<close>

fun notice_of :: "effect \<Rightarrow> notice list" where
  "notice_of (SendMessage c n) = [n]"
| "notice_of _ = []"

fun ban_of :: "effect \<Rightarrow> (int \<times> int) list" where
  "ban_of (BanChatMember c u) = [(c, u)]"
| "ban_of _ = []"

fun restrict_of :: "effect \<Rightarrow> (int \<times> int \<times> chat_permissions) list" where
  "restrict_of (RestrictChatMember c u p) = [(c, u, p)]"
| "restrict_of _ = []"

definition notices :: "effect list \<Rightarrow> notice list" where
  "notices tr = concat (map notice_of tr)"

definition bans :: "effect list \<Rightarrow> (int \<times> int) list" where
  "bans tr = concat (map ban_of tr)"

definition restricts :: "effect list \<Rightarrow> (int \<times> int \<times> chat_permissions) list" where
  "restricts tr = concat (map restrict_of tr)"

definition since :: "world \<Rightarrow> world \<Rightarrow> effect list" where
  "since w w' = drop (length (trace w)) (trace w')"

text \<open>A warn operation with an authorized actor and a resolved target \<open>uid\<close> that is not
  an administrator, whose command message could be deleted or was refused deletion.\<close>

definition warn_applies :: "env \<Rightarrow> message \<Rightarrow> int \<Rightarrow> bool" where
  "warn_applies e m uid \<longleftrightarrow>
     tg e (DeleteMessage (chat m) (message_id m)) \<noteq> Failed \<and>
     is_user_admin e m (tg_id (from_user m)) \<and>
     fst (warn_extract_user_info e m) = Some uid \<and> uid \<noteq> 0 \<and>
     \<not> is_user_admin e m uid"

definition warned_name :: "env \<Rightarrow> message \<Rightarrow> string" where
  "warned_name e m = shown (snd (warn_extract_user_info e m))"

text \<open>The background task that \<open>send_and_auto_delete\<close> creates when the text was sent.\<close>

definition delete_task :: "env \<Rightarrow> message \<Rightarrow> notice \<Rightarrow> int \<Rightarrow> effect list" where
  "delete_task e m n d =
     (case tg e (SendMessage (chat m) n) of Ok sent \<Rightarrow> [DeleteAfter d (chat m) sent] | _ \<Rightarrow> [])"

section \<open>Concrete surroundings for the examples\<close>

text \<open>A transport that performs every call (each sent message gets the id 500), a store
  without administrators and users, the administrator 1 configured, the spec's default
  policies.\<close>

definition env0 :: env where
  "env0 =
     \<lparr>ADMINS = [1], WARN_MESSAGE_DELETE_DELAY = 3, MUTE_MESSAGE_DELETE_DELAY = 3,
      antispam = \<lparr>enabled = True, max_messages = 5, window_seconds = 10\<rparr>,
      antimat = \<lparr>antimat_enabled = True, warnings_enabled = True,
                 blacklist_words = [''durak'', ''loh''], blacklist_links = [''t.me/'']\<rparr>,
      strings = ascii,
      clock = 5,
      tg = (\<lambda>c. Ok 500),
      get_chat_member = (\<lambda>c u. Ok Member),
      get_chat_administrators = (\<lambda>c. Ok []),
      db_admin = (\<lambda>u. NotFound),
      db_user = (\<lambda>n. NotFound)\<rparr>"

definition world0 :: world where
  "world0 = \<lparr>flood = Map.empty, warns = Map.empty, pending_users = Map.empty, trace = []\<rparr>"

definition ann :: tg_user where
  "ann = \<lparr>tg_id = 1, username = Some ''ann'', first_name = ''Ann''\<rparr>"

definition bob :: tg_user where
  "bob = \<lparr>tg_id = 42, username = Some ''bob'', first_name = ''Bob''\<rparr>"

text \<open>The administrator 1 replies \<open>/warn\<close> to a message of user 42 in the chat -100.\<close>

definition warn_msg :: message where
  "warn_msg =
     \<lparr>message_id = 10, chat = - 100, from_user = ann, msg_text = Some ''/warn'',
      reply_to_message = Some (Some bob)\<rparr>"

text \<open>A transport whose ban call raises an exception that is neither
  \<open>TelegramBadRequest\<close> nor \<open>TelegramForbiddenError\<close> (a network error, a flood limit),
  and one that refuses the ban.\<close>

definition ban_fails :: "effect \<Rightarrow> int outcome" where
  "ban_fails c = (case c of BanChatMember ch u \<Rightarrow> Failed | _ \<Rightarrow> Ok 500)"

definition ban_refused :: "effect \<Rightarrow> int outcome" where
  "ban_refused c = (case c of BanChatMember ch u \<Rightarrow> Refused | _ \<Rightarrow> Ok 500)"

text \<open>Two warnings of user 42 by the administrator 1, starting with no warnings; then a
  third one during which the ban call raises an unexpected exception.\<close>

definition after_two_warns :: world where
  "after_two_warns = fst (warn_command env0 warn_msg (fst (warn_command env0 warn_msg world0)))"

definition third_warn_ban_fails :: world where
  "third_warn_ban_fails = fst (warn_command (env0\<lparr>tg := ban_fails\<rparr>) warn_msg after_two_warns)"

text \<open>A store that lists user 42 as an administrator, and a chat in which user 42 has the
  administrator role; the administrator 1 replies \<open>/mute 5\<close> and \<open>/unmute\<close> to user 42,
  and \<open>/warn\<close> to a message of the administrator 1.\<close>

definition db_admin_42 :: "int \<Rightarrow> string query" where
  "db_admin_42 u = (if u = 42 then Found ''moderator'' else NotFound)"

definition chat_admin_42 :: "int \<Rightarrow> int \<Rightarrow> member_status outcome" where
  "chat_admin_42 c u = (if u = 42 then Ok Administrator else Ok Member)"

definition mute_msg :: message where
  "mute_msg = warn_msg\<lparr>msg_text := Some ''/mute 5''\<rparr>"

definition unmute_msg :: message where
  "unmute_msg = warn_msg\<lparr>msg_text := Some ''/unmute''\<rparr>"

definition warn_ann_msg :: message where
  "warn_ann_msg = warn_msg\<lparr>reply_to_message := Some (Some ann)\<rparr>"

section \<open>Mute and unmute (plugins/mute\_plugin.py)\<close>

text \<open>\<open>send_and_auto_delete\<close> of the mute plugin waits inside the handler and deletes
  the text itself; it swallows the two Telegram errors only.\<close>

definition mute_send_and_auto_delete ::
  "env \<Rightarrow> message \<Rightarrow> notice \<Rightarrow> int \<Rightarrow> world \<Rightarrow> world \<times> result" where
  "mute_send_and_auto_delete e m n delay w =
     (case perform e (SendMessage (chat m) n) w of
        (w1, Ok sent) \<Rightarrow>
          (case perform e (DeleteMessage (chat m) sent) (emit (Sleep delay) w1) of
             (w2, Failed) \<Rightarrow> (w2, Raised OtherException)
           | (w2, _) \<Rightarrow> (w2, Returned))
      | (w1, Refused) \<Rightarrow> (w1, Returned)
      | (w1, Failed) \<Rightarrow> (w1, Raised OtherException))"

text \<open>
  \<open>extract_user_info\<close> of the mute plugin: the mention is looked up in the users table,
  then among the chat's administrators (compared in lower case; the one found is saved
  to the store); without a mention the author of the replied message is the target
  (saved when it has a username).  The third component holds the writes to the store;
  \<open>save_user_to_db\<close> swallows its errors.
\<close>

definition same_username :: "env \<Rightarrow> string \<Rightarrow> tg_user \<Rightarrow> bool" where
  "same_username e name a =
     (case username a of None \<Rightarrow> False
      | Some n \<Rightarrow> n \<noteq> [] \<and> str_lower (strings e) n = str_lower (strings e) name)"

definition mute_extract_user_info ::
  "env \<Rightarrow> message \<Rightarrow> int option \<times> string option \<times> effect list" where
  "mute_extract_user_info e m =
     (case mention_of m of
        Some name \<Rightarrow>
          (case db_user e name of
             Found u \<Rightarrow> (Some (telegram_id u), Some (name_or (db_username u) (db_first_name u)), [])
           | _ \<Rightarrow>
             (case get_chat_administrators e (chat m) of
                Ok admins \<Rightarrow>
                  (case find (same_username e name) admins of
                     Some a \<Rightarrow>
                       (Some (tg_id a), Some (name_or (username a) (Some (first_name a))),
                        [SaveUser (tg_id a) (username a) (first_name a)])
                   | None \<Rightarrow> (None, Some name, []))
              | _ \<Rightarrow> (None, Some name, [])))
      | None \<Rightarrow>
          (case reply_to_message m of
             Some (Some target) \<Rightarrow>
               (Some (tg_id target), Some (name_or (username target) (Some (first_name target))),
                if truthy (username target)
                then [SaveUser (tg_id target) (username target) (first_name target)] else [])
           | _ \<Rightarrow> (None, None, [])))"

text \<open>\<open>str.split()\<close> without arguments: the pieces between runs of white space.\<close>

fun split_ws :: "string \<Rightarrow> string \<Rightarrow> string list" where
  "split_ws cur [] = (if cur = [] then [] else [cur])"
| "split_ws cur (c # cs) =
     (if is_space c then (if cur = [] then split_ws [] cs else cur # split_ws [] cs)
      else split_ws (cur @ [c]) cs)"

definition py_split :: "string \<Rightarrow> string list" where
  "py_split s = split_ws [] s"

text \<open>\<open>int(s)\<close> on a string: white space at the ends is dropped, a sign may come first,
  then decimal digits, single underscores allowed between digits.  \<open>None\<close> stands for
  \<open>ValueError\<close>.\<close>

definition digit_val :: "char \<Rightarrow> int option" where
  "digit_val c = map_of (zip ''0123456789'' [0, 1, 2, 3, 4, 5, 6, 7, 8, 9]) c"

fun parse_digits :: "string \<Rightarrow> int \<Rightarrow> bool \<Rightarrow> int option" where
  "parse_digits [] acc after_digit = (if after_digit then Some acc else None)"
| "parse_digits (c # cs) acc after_digit =
     (if c = CHR ''_'' then (if after_digit then parse_digits cs acc False else None)
      else case digit_val c of
        Some d \<Rightarrow> parse_digits cs (acc * 10 + d) True
      | None \<Rightarrow> None)"

definition py_int :: "string \<Rightarrow> int option" where
  "py_int s =
     (case py_strip s of
        c # cs \<Rightarrow>
          if c = CHR ''-'' then map_option uminus (parse_digits cs 0 False)
          else if c = CHR ''+'' then parse_digits cs 0 False
          else parse_digits (c # cs) 0 False
      | [] \<Rightarrow> None)"

text \<open>The loop over \<open>command_args[1:]\<close>: mentions and arguments that are no numbers are
  skipped, the first number is the duration; \<open>None\<close> says that it was not positive.\<close>

fun parse_minutes :: "string list \<Rightarrow> int option" where
  "parse_minutes [] = Some 10"
| "parse_minutes (arg # args) =
     (if startswith arg ''@'' then parse_minutes args
      else case py_int arg of
        Some n \<Rightarrow> if n \<le> 0 then None else Some n
      | None \<Rightarrow> parse_minutes args)"

text \<open>Lines 222 to 293 of \<open>mute_command\<close>, after the checks.  A message without text
  (a caption carried the command) makes \<open>message.text.split()\<close> raise.\<close>

definition mute_apply :: "env \<Rightarrow> message \<Rightarrow> int \<Rightarrow> string option \<Rightarrow> world \<Rightarrow> world \<times> result" where
  "mute_apply e m uid uname w =
     (let delay = MUTE_MESSAGE_DELETE_DELAY e in
      case msg_text m of
        None \<Rightarrow> (w, Raised OtherException)
      | Some t \<Rightarrow>
        (case parse_minutes (tl (py_split t)) of
           None \<Rightarrow> mute_send_and_auto_delete e m MuteTimePositive delay w
         | Some mute_minutes \<Rightarrow>
           (case perform e (RestrictChatMember (chat m) uid restricted_permissions) w of
              (w1, Ok _) \<Rightarrow>
                (case mute_send_and_auto_delete e m (MutedFor (shown uname) mute_minutes) delay w1 of
                   (w2, Raised _) \<Rightarrow> mute_send_and_auto_delete e m MuteError delay w2
                 | (w2, Returned) \<Rightarrow>
                     (case perform e (RestrictChatMember (chat m) uid normal_permissions)
                             (emit (Sleep (mute_minutes * 60)) w2) of
                        (w3, Ok _) \<Rightarrow>
                          (fst (mute_send_and_auto_delete e m (Unmuted (shown uname)) delay w3),
                           Returned)
                      | (w3, _) \<Rightarrow> (w3, Returned)))
            | (w1, Refused) \<Rightarrow> mute_send_and_auto_delete e m MuteFailed delay w1
            | (w1, Failed) \<Rightarrow> mute_send_and_auto_delete e m MuteError delay w1)))"

text \<open>The answer when \<open>not user_id\<close> holds (no target, or the id 0).\<close>

definition mute_no_target :: "env \<Rightarrow> message \<Rightarrow> string option \<Rightarrow> world \<Rightarrow> world \<times> result" where
  "mute_no_target e m uname w =
     (if truthy uname
      then mute_send_and_auto_delete e m (UserNotFound (shown uname)) (MUTE_MESSAGE_DELETE_DELAY e) w
      else mute_send_and_auto_delete e m SpecifyUser (MUTE_MESSAGE_DELETE_DELAY e) w)"

definition mute_command :: "env \<Rightarrow> message \<Rightarrow> world \<Rightarrow> world \<times> result" where
  "mute_command e m w =
     (case delete_command_message e m w of
        (w1, Raised x) \<Rightarrow> (w1, Raised x)
      | (w1, Returned) \<Rightarrow>
          let delay = MUTE_MESSAGE_DELETE_DELAY e in
          if \<not> is_user_admin e m (tg_id (from_user m)) then
            mute_send_and_auto_delete e m NoRights delay w1
          else
            (case mute_extract_user_info e m of
               (target, uname, saved) \<Rightarrow>
                 let w2 = w1\<lparr>trace := trace w1 @ saved\<rparr> in
                 (case target of
                    None \<Rightarrow> mute_no_target e m uname w2
                  | Some uid \<Rightarrow>
                      if uid = 0 then mute_no_target e m uname w2
                      else if is_user_admin e m uid then
                        mute_send_and_auto_delete e m CannotMuteAdmin delay w2
                      else mute_apply e m uid uname w2)))"

text \<open>Lines 323 to 349 of \<open>unmute_command\<close>.\<close>

definition unmute_apply :: "env \<Rightarrow> message \<Rightarrow> int \<Rightarrow> string option \<Rightarrow> world \<Rightarrow> world \<times> result" where
  "unmute_apply e m uid uname w =
     (let delay = MUTE_MESSAGE_DELETE_DELAY e in
      case perform e (RestrictChatMember (chat m) uid normal_permissions) w of
        (w1, Ok _) \<Rightarrow>
          (case mute_send_and_auto_delete e m (Unmuted (shown uname)) delay w1 of
             (w2, Raised _) \<Rightarrow> mute_send_and_auto_delete e m UnmuteError delay w2
           | (w2, Returned) \<Rightarrow> (w2, Returned))
      | (w1, Refused) \<Rightarrow> mute_send_and_auto_delete e m UnmuteFailed delay w1
      | (w1, Failed) \<Rightarrow> mute_send_and_auto_delete e m UnmuteError delay w1)"

definition unmute_command :: "env \<Rightarrow> message \<Rightarrow> world \<Rightarrow> world \<times> result" where
  "unmute_command e m w =
     (case delete_command_message e m w of
        (w1, Raised x) \<Rightarrow> (w1, Raised x)
      | (w1, Returned) \<Rightarrow>
          let delay = MUTE_MESSAGE_DELETE_DELAY e in
          if \<not> is_user_admin e m (tg_id (from_user m)) then
            mute_send_and_auto_delete e m NoRights delay w1
          else
            (case mute_extract_user_info e m of
               (target, uname, saved) \<Rightarrow>
                 let w2 = w1\<lparr>trace := trace w1 @ saved\<rparr> in
                 (case target of
                    None \<Rightarrow> mute_no_target e m uname w2
                  | Some uid \<Rightarrow>
                      if uid = 0 then mute_no_target e m uname w2
                      else if is_user_admin e m uid then
                        mute_send_and_auto_delete e m CannotUnmuteAdmin delay w2
                      else unmute_apply e m uid uname w2)))"

text \<open>What \<open>send_and_auto_delete\<close> of the mute plugin does after sending.\<close>

definition mute_send_tail :: "env \<Rightarrow> message \<Rightarrow> notice \<Rightarrow> int \<Rightarrow> effect list" where
  "mute_send_tail e m n d =
     (case tg e (SendMessage (chat m) n) of
        Ok sent \<Rightarrow> [Sleep d, DeleteMessage (chat m) sent]
      | _ \<Rightarrow> [])"

section \<open>Verification of new members (plugins/captcha\_plugin.py)\<close>

record callback_query =
  cb_from :: tg_user
  cb_data :: string

text \<open>\<open>s.split(':')\<close>: the pieces between the separators, empty pieces kept.\<close>

fun split_on :: "char \<Rightarrow> string \<Rightarrow> string list" where
  "split_on sep [] = [[]]"
| "split_on sep (c # cs) =
     (if c = sep then [] # split_on sep cs
      else case split_on sep cs of
        p # ps \<Rightarrow> (c # p) # ps
      | [] \<Rightarrow> [[c]])"

text \<open>The handler's \<open>except Exception\<close>: the error is logged and answered with an alert;
  an exception of that answer leaves the handler.\<close>

definition captcha_error :: "env \<Rightarrow> world \<Rightarrow> world \<times> result" where
  "captcha_error e w =
     (case perform e (AnswerCallback ConfirmError True) w of
        (w1, Ok _) \<Rightarrow> (w1, Returned)
      | (w1, Refused) \<Rightarrow> (w1, Raised TelegramError)
      | (w1, Failed) \<Rightarrow> (w1, Raised OtherException))"

text \<open>An answer inside the \<open>try\<close>, after which the handler returns.\<close>

definition captcha_answer :: "env \<Rightarrow> notice \<Rightarrow> bool \<Rightarrow> world \<Rightarrow> world \<times> result" where
  "captcha_answer e n alert w =
     (case perform e (AnswerCallback n alert) w of
        (w1, Ok _) \<Rightarrow> (w1, Returned)
      | (w1, _) \<Rightarrow> captcha_error e w1)"

text \<open>Lines 183 to 304: the kick task is cancelled, the permissions are restored in the
  chat named by the callback data, the challenge message is deleted, the welcome is sent,
  the user and the join are written to the store (errors swallowed), the entry is deleted
  and the press is answered.\<close>

definition captcha_confirm ::
  "env \<Rightarrow> callback_query \<Rightarrow> int \<Rightarrow> int \<Rightarrow> pending \<Rightarrow> world \<Rightarrow> world \<times> result" where
  "captcha_confirm e cb chat_id uid entry w =
     (let w1 = (if kick_task entry then emit (CancelKickTask uid) w else w) in
      case perform e (RestrictChatMember chat_id uid normal_permissions) w1 of
        (w2, Ok _) \<Rightarrow>
          (case perform e (DeleteMessage chat_id (pending_message_id entry)) w2 of
             (w3, Failed) \<Rightarrow> captcha_error e w3
           | (w3, _) \<Rightarrow>
               (case perform e (SendMessage chat_id (Welcome (first_name (cb_from cb)))) w3 of
                  (w4, Ok sent) \<Rightarrow>
                    (let w5 = emit (DeleteAfter 3 chat_id sent) w4;
                         w6 = emit (SaveUser uid (username (cb_from cb)) (first_name (cb_from cb))) w5;
                         w7 = emit (RecordJoin uid chat_id) w6;
                         w8 = w7\<lparr>pending_users := (pending_users w7)(uid := None)\<rparr>
                     in captcha_answer e Confirmed False w8)
                | (w4, _) \<Rightarrow> captcha_error e w4))
      | (w2, _) \<Rightarrow> captcha_error e w2)"

text \<open>\<open>on_captcha_callback\<close>: the data \<open>captcha:{chat_id}:{user_id}:{token}\<close> is taken
  apart; the one who pressed must be the user of the data, the user must have an entry in
  \<open>pending_users\<close>, and the entry's token must be the token of the data.\<close>

definition on_captcha_callback :: "env \<Rightarrow> callback_query \<Rightarrow> world \<Rightarrow> world \<times> result" where
  "on_captcha_callback e cb w =
     (case split_on CHR '':'' (cb_data cb) of
        [p0, p1, p2, p3] \<Rightarrow>
          (case py_int p1 of
             None \<Rightarrow> captcha_error e w
           | Some chat_id \<Rightarrow>
             (case py_int p2 of
                None \<Rightarrow> captcha_error e w
              | Some uid \<Rightarrow>
                  if tg_id (cb_from cb) \<noteq> uid then captcha_answer e OnlyThatUser True w
                  else
                    (case pending_users w uid of
                       None \<Rightarrow> captcha_answer e TimeExpired True w
                     | Some entry \<Rightarrow>
                         if token entry \<noteq> p3 then captcha_answer e WrongToken True w
                         else captcha_confirm e cb chat_id uid entry w)))
      | _ \<Rightarrow> captcha_answer e CaptchaBadData True w)"

text \<open>The parts of well-formed callback data.\<close>

definition captcha_parts :: "callback_query \<Rightarrow> (int \<times> int \<times> string) option" where
  "captcha_parts cb =
     (case split_on CHR '':'' (cb_data cb) of
        [p0, p1, p2, p3] \<Rightarrow>
          (case py_int p1 of
             None \<Rightarrow> None
           | Some chat_id \<Rightarrow>
             (case py_int p2 of None \<Rightarrow> None | Some uid \<Rightarrow> Some (chat_id, uid, p3)))
      | _ \<Rightarrow> None)"

text \<open>The effects of a handler run that are acknowledgements of the button press.\<close>

fun is_answer :: "effect \<Rightarrow> bool" where
  "is_answer (AnswerCallback n a) = True"
| "is_answer _ = False"

text \<open>User 42 joined the chat -100 and got the token \<open>abcd1234\<close> with the challenge
  message 77.  The first press carries the data the bot issued; the second names another
  chat, -200; the third comes from user 1.\<close>

definition pending_world :: world where
  "pending_world =
     world0\<lparr>pending_users :=
       [42 \<mapsto> \<lparr>pending_chat_id = - 100, pending_message_id = 77, kick_task = True,
                token = ''abcd1234''\<rparr>]\<rparr>"

definition press :: callback_query where
  "press = \<lparr>cb_from = bob, cb_data = ''captcha:-100:42:abcd1234''\<rparr>"

definition press_other_chat :: callback_query where
  "press_other_chat = \<lparr>cb_from = bob, cb_data = ''captcha:-200:42:abcd1234''\<rparr>"

definition press_by_ann :: callback_query where
  "press_by_ann = \<lparr>cb_from = ann, cb_data = ''captcha:-100:42:abcd1234''\<rparr>"

definition press_wrong_token :: callback_query where
  "press_wrong_token = \<lparr>cb_from = bob, cb_data = ''captcha:-100:42:zzzz9999''\<rparr>"

section \<open>Message middlewares and their order (plugins and plugin\_loader.py)\<close>

text \<open>What a middleware calls next: the rest of the chain, ending in the handler that
  matched the message.\<close>

type_synonym handler = "message \<Rightarrow> world \<Rightarrow> world \<times> result"

text \<open>\<open>AntifloodMiddleware.handle_flood_message\<close>: the message is deleted (a refusal is
  ignored), the warning is sent and a task is created that deletes it after 5 seconds; the
  outer \<open>except Exception\<close> swallows everything else.\<close>

definition handle_flood_message :: "env \<Rightarrow> message \<Rightarrow> world \<Rightarrow> world" where
  "handle_flood_message e m w =
     (case perform e (DeleteMessage (chat m) (message_id m)) w of
        (w1, Failed) \<Rightarrow> w1
      | (w1, _) \<Rightarrow>
          (case perform e (SendMessage (chat m) (TooFast (first_name (from_user m)))) w1 of
             (w2, Ok sent) \<Rightarrow> emit (DeleteAfter 5 (chat m) sent) w2
           | (w2, _) \<Rightarrow> w2))"

text \<open>\<open>AntifloodMiddleware.__call__\<close>: messages without text go on; a text message is
  checked by \<open>is_flooding\<close> at the current time, which records it; a flood stops here.\<close>

definition AntifloodMiddleware_call :: "env \<Rightarrow> handler \<Rightarrow> handler" where
  "AntifloodMiddleware_call e handler m w =
     (if \<not> truthy (msg_text m) then handler m w
      else
        (case is_flooding (antispam e) (flood w) (chat m) (tg_id (from_user m)) (clock e) of
           (flooding, fc) \<Rightarrow>
             if flooding then (handle_flood_message e m (w\<lparr>flood := fc\<rparr>), Returned)
             else handler m (w\<lparr>flood := fc\<rparr>)))"

text \<open>The branch \<open>except (TelegramBadRequest, TelegramForbiddenError)\<close> of
  \<open>BlacklistMiddleware.__call__\<close>: a warning is sent when warnings are enabled (an exception
  of this send leaves the middleware); there is no \<open>return\<close>, so the handler is called
  next.\<close>

definition blacklist_cannot_delete :: "env \<Rightarrow> handler \<Rightarrow> handler" where
  "blacklist_cannot_delete e handler m w =
     (if warnings_enabled (antimat e) then
        (case perform e (SendMessage (chat m) ContentForbidden) w of
           (w1, Ok sent) \<Rightarrow> handler m (emit (DeleteAfter 3 (chat m) sent) w1)
         | (w1, Refused) \<Rightarrow> (w1, Raised TelegramError)
         | (w1, Failed) \<Rightarrow> (w1, Raised OtherException))
      else handler m w)"

text \<open>\<open>BlacklistMiddleware.__call__\<close>: a text that is no command and is blacklisted is
  deleted and, when warnings are enabled, answered with a warning that a task deletes after
  3 seconds; then the middleware returns.  The two Telegram errors inside the \<open>try\<close> lead to
  the branch above, any other exception is logged, and in both cases the handler is called.\<close>

definition BlacklistMiddleware_call :: "env \<Rightarrow> handler \<Rightarrow> handler" where
  "BlacklistMiddleware_call e handler m w =
     (case msg_text m of
        None \<Rightarrow> handler m w
      | Some t \<Rightarrow>
          if t \<noteq> [] \<and> \<not> is_command (strings e) t
             \<and> is_blacklisted_content (strings e) (antimat e) t then
            (case perform e (DeleteMessage (chat m) (message_id m)) w of
               (w1, Ok _) \<Rightarrow>
                 if warnings_enabled (antimat e) then
                   (case perform e (SendMessage (chat m) ContentDeleted) w1 of
                      (w2, Ok sent) \<Rightarrow> (emit (DeleteAfter 3 (chat m) sent) w2, Returned)
                    | (w2, Refused) \<Rightarrow> blacklist_cannot_delete e handler m w2
                    | (w2, Failed) \<Rightarrow> handler m w2)
                 else (w1, Returned)
             | (w1, Refused) \<Rightarrow> blacklist_cannot_delete e handler m w1
             | (w1, Failed) \<Rightarrow> handler m w1)
          else handler m w)"

text \<open>
  \<open>register_plugins\<close> calls \<open>register\<close> of each plugin in the order of \<open>plugin_order\<close>
  (every module of the plugins directory is in the list).  Three plugins register a
  middleware on \<open>dp.message\<close>; the dispatcher is created without any.
\<close>

definition plugin_order :: "string list" where
  "plugin_order =
     [''admin_panel'', ''scheduler_plugin'', ''post_manager_plugin'',
      ''hello_plugin'', ''triggers_plugin'', ''warn_plugin'', ''mute_plugin'', ''ban_plugin'',
      ''poll_plugin'', ''reputation_plugin'',
      ''blacklist_plugin'', ''antiflood_plugin'',
      ''invite_stats'', ''stats_plugin'',
      ''captcha_plugin'', ''delete_plugin'']"

datatype middleware = BlacklistMiddleware | AntifloodMiddleware | StatsMiddleware

definition plugin_middlewares :: "string \<Rightarrow> middleware list" where
  "plugin_middlewares plugin_name =
     (if plugin_name = ''blacklist_plugin'' then [BlacklistMiddleware]
      else if plugin_name = ''antiflood_plugin'' then [AntifloodMiddleware]
      else if plugin_name = ''stats_plugin'' then [StatsMiddleware]
      else [])"

definition registered_middlewares :: "middleware list" where
  "registered_middlewares = concat (map plugin_middlewares plugin_order)"

text \<open>
  The dispatcher of the aiogram library wraps the matched handler in the registered
  middlewares so that the middleware registered first is called first and receives the
  rest of the chain as its \<open>handler\<close>.  The statistics middleware is a parameter here: it
  and the handler it wraps are the later stages.
\<close>

definition call_middleware :: "env \<Rightarrow> (handler \<Rightarrow> handler) \<Rightarrow> middleware \<Rightarrow> handler \<Rightarrow> handler" where
  "call_middleware e stats mw handler =
     (case mw of
        BlacklistMiddleware \<Rightarrow> BlacklistMiddleware_call e handler
      | AntifloodMiddleware \<Rightarrow> AntifloodMiddleware_call e handler
      | StatsMiddleware \<Rightarrow> stats handler)"

definition wrap_middlewares ::
  "env \<Rightarrow> (handler \<Rightarrow> handler) \<Rightarrow> middleware list \<Rightarrow> handler \<Rightarrow> handler" where
  "wrap_middlewares e stats mws handler = foldr (call_middleware e stats) mws handler"

definition dispatch_message :: "env \<Rightarrow> (handler \<Rightarrow> handler) \<Rightarrow> handler \<Rightarrow> handler" where
  "dispatch_message e stats handler = wrap_middlewares e stats registered_middlewares handler"

text \<open>The content filter's verdict on a message, as the middleware forms it.\<close>

definition filter_blacklisted :: "env \<Rightarrow> message \<Rightarrow> bool" where
  "filter_blacklisted e m =
     (case msg_text m of
        None \<Rightarrow> False
      | Some t \<Rightarrow>
          t \<noteq> [] \<and> \<not> is_command (strings e) t
          \<and> is_blacklisted_content (strings e) (antimat e) t)"

text \<open>The flood detector's verdict on a message in a state, without recording it.\<close>

definition would_flood :: "env \<Rightarrow> message \<Rightarrow> world \<Rightarrow> bool" where
  "would_flood e m w =
     (truthy (msg_text m) \<and>
      fst (is_flooding (antispam e) (flood w) (chat m) (tg_id (from_user m)) (clock e)))"

text \<open>Later stages for the examples: a statistics middleware that only calls on, and a
  handler that marks the message as handled.  User 42 has sent five messages in chat -100
  at the times 0 to 4 and now, at time 5, sends a sixth with a blacklisted word.  One
  transport refuses to delete messages.\<close>

definition stats_pass :: "handler \<Rightarrow> handler" where
  "stats_pass handler = handler"

definition mark_handler :: handler where
  "mark_handler m w = (emit (Handled (message_id m)) w, Returned)"

definition flooded_world :: world where
  "flooded_world = world0\<lparr>flood := [(- 100, 42) \<mapsto> [0, 1, 2, 3, 4]]\<rparr>"

definition bad_msg :: message where
  "bad_msg =
     \<lparr>message_id = 11, chat = - 100, from_user = bob, msg_text = Some ''ty DURAK'',
      reply_to_message = None\<rparr>"

definition delete_refused :: "effect \<Rightarrow> int outcome" where
  "delete_refused c = (case c of DeleteMessage ch i \<Rightarrow> Refused | _ \<Rightarrow> Ok 500)"

section \<open>Scheduled posts (plugins/scheduler\_plugin.py)\<close>

text \<open>
  A row of the table \<open>scheduled_posts\<close> with the columns the sweep reads or writes; times
  are points of a discrete clock.  The column \<open>status\<close> holds one of the four words
  \<open>pending\<close>, \<open>published\<close>, \<open>failed\<close> and \<open>deleted\<close>.
\<close>

datatype post_status = Pending | Published | FailedPost | Deleted

record scheduled_post =
  post_id :: int
  post_chat_id :: int
  topic_id :: "int option"
  publish_time :: int
  post_text :: "string option"
  media_file_id :: "string option"
  media_type :: "string option"
  status :: post_status
  published_at :: "int option"
  telegram_message_id :: "int option"
  buttons_json :: "string option"

text \<open>
  The send call of a post.  Its arguments are the chat, the thread, the file and the text;
  the last argument stands for \<open>reply_markup\<close>, which the sweep computes from the column
  \<open>buttons_json\<close> alone (a column that is empty or does not parse gives no markup, and the
  error is logged).
\<close>

datatype send_call =
    SendPhoto int "int option" string "string option" "string option"
  | SendVideo int "int option" string "string option" "string option"
  | SendDocument int "int option" string "string option" "string option"
  | SendText int "int option" "string option" "string option"

definition markup_source :: "scheduled_post \<Rightarrow> string option" where
  "markup_source p = (if truthy (buttons_json p) then buttons_json p else None)"

text \<open>Lines 48 to 80: which call is made.  A post with a media file whose type is none of
  the three words is sent by no call.\<close>

definition send_call_of :: "scheduled_post \<Rightarrow> send_call option" where
  "send_call_of p =
     (case media_file_id p of
        None \<Rightarrow> Some (SendText (post_chat_id p) (topic_id p) (post_text p) (markup_source p))
      | Some file \<Rightarrow>
          if file = [] then
            Some (SendText (post_chat_id p) (topic_id p) (post_text p) (markup_source p))
          else if media_type p = Some ''photo'' then
            Some (SendPhoto (post_chat_id p) (topic_id p) file (post_text p) (markup_source p))
          else if media_type p = Some ''video'' then
            Some (SendVideo (post_chat_id p) (topic_id p) file (post_text p) (markup_source p))
          else if media_type p = Some ''document'' then
            Some (SendDocument (post_chat_id p) (topic_id p) file (post_text p) (markup_source p))
          else None)"

text \<open>
  The body of the loop for one due post, with the calls it makes (tagged with the post's
  id).  The transport answers a send call with the id of the delivered message or with an
  exception; every exception makes the post \<open>failed\<close>.
\<close>

definition process_post ::
  "int \<Rightarrow> (send_call \<Rightarrow> int outcome) \<Rightarrow> scheduled_post \<Rightarrow> scheduled_post \<times> (int \<times> send_call) list" where
  "process_post now send p =
     (case send_call_of p of
        None \<Rightarrow> (p\<lparr>status := Published, published_at := Some now\<rparr>, [])
      | Some c \<Rightarrow>
          (case send c of
             Ok sent_message_id \<Rightarrow>
               (p\<lparr>status := Published, published_at := Some now,
                  telegram_message_id := Some sent_message_id\<rparr>, [(post_id p, c)])
           | _ \<Rightarrow> (p\<lparr>status := FailedPost\<rparr>, [(post_id p, c)])))"

text \<open>The filter of the query.\<close>

definition is_due :: "int \<Rightarrow> scheduled_post \<Rightarrow> bool" where
  "is_due now p \<longleftrightarrow> status p = Pending \<and> publish_time p \<le> now"

text \<open>The loop over the due posts: the rows of the table after it, and the calls made.\<close>

fun sweep_rows ::
  "int \<Rightarrow> (send_call \<Rightarrow> int outcome) \<Rightarrow> scheduled_post list \<Rightarrow>
   scheduled_post list \<times> (int \<times> send_call) list" where
  "sweep_rows now send [] = ([], [])"
| "sweep_rows now send (p # ps) =
     (if is_due now p
      then (fst (process_post now send p) # fst (sweep_rows now send ps),
            snd (process_post now send p) @ snd (sweep_rows now send ps))
      else (p # fst (sweep_rows now send ps), snd (sweep_rows now send ps)))"

text \<open>
  What the store does during a sweep: it works, or the query raises, or the commit raises.
  The handler of the session's \<open>try\<close> logs the error and rolls back.
\<close>

datatype db_outcome = DbOk | QueryFails | CommitFails

definition check_and_send_posts ::
  "int \<Rightarrow> db_outcome \<Rightarrow> (send_call \<Rightarrow> int outcome) \<Rightarrow> scheduled_post list \<Rightarrow>
   scheduled_post list \<times> (int \<times> send_call) list" where
  "check_and_send_posts now db send posts =
     (if db = QueryFails then (posts, [])
      else if filter (is_due now) posts = [] then (posts, [])
      else if db = CommitFails then (posts, snd (sweep_rows now send posts))
      else sweep_rows now send posts)"

text \<open>A run of sweeps, one for each tick (time, store, transport), on the same table.\<close>

fun sweeps ::
  "(int \<times> db_outcome \<times> (send_call \<Rightarrow> int outcome)) list \<Rightarrow> scheduled_post list \<Rightarrow>
   scheduled_post list \<times> (int \<times> send_call) list" where
  "sweeps [] posts = (posts, [])"
| "sweeps ((now, db, send) # ticks) posts =
     (let (posts1, calls1) = check_and_send_posts now db send posts;
          (posts2, calls2) = sweeps ticks posts1
      in (posts2, calls1 @ calls2))"

text \<open>A table for the examples: post 1 is pending and due at time 100, post 2 is pending
  and due at time 900, post 3 was published.  The transport delivers every message with
  the id 500.\<close>

definition post1 :: scheduled_post where
  "post1 =
     \<lparr>post_id = 1, post_chat_id = - 100, topic_id = None, publish_time = 100,
      post_text = Some ''hello'', media_file_id = None, media_type = None, status = Pending,
      published_at = None, telegram_message_id = None, buttons_json = None\<rparr>"

definition post2 :: scheduled_post where
  "post2 = post1\<lparr>post_id := 2, publish_time := 900\<rparr>"

definition post3 :: scheduled_post where
  "post3 =
     post1\<lparr>post_id := 3, publish_time := 50, status := Published, published_at := Some 60,
            telegram_message_id := Some 400\<rparr>"

definition send_ok :: "send_call \<Rightarrow> int outcome" where
  "send_ok c = Ok 500"

section \<open>Properties of the flood detector\<close>

lemma popleft_old_dropWhile:
  "popleft_old now w ts = dropWhile (\<lambda>t. \<not> in_window now w t) ts"
  by (induction ts) (auto simp: in_window_def)

lemma dropWhile_filter_sorted:
  "sorted ts \<Longrightarrow> dropWhile (\<lambda>t. \<not> in_window now w t) ts = filter (in_window now w) ts"
proof (induction ts)
  case Nil
  show ?case by simp
next
  case (Cons t ts)
  show ?case
  proof (cases "in_window now w t")
    case True
    from Cons.prems have "\<forall>x\<in>set ts. t \<le> x" by simp
    with True have "\<forall>x\<in>set ts. in_window now w x"
      by (auto simp: in_window_def)
    then have "filter (in_window now w) ts = ts" by (simp add: filter_id_conv)
    with True show ?thesis by simp
  next
    case False
    from Cons.prems have "sorted ts" by simp
    with Cons.IH False show ?thesis by simp
  qed
qed


text \<open>
  When the recorded timestamps are nondecreasing and the current time is not earlier than
  the last of them, popping from the left removes exactly the timestamps that are strictly
  older than \<open>now - window_seconds\<close>, and the check counts the timestamps inside the
  window; a disabled configuration records nothing.
\<close>

lemma is_flooding_window:
  "(enabled config \<and> sorted (recorded fc chat_id user_id @ [now]) \<longrightarrow>
      is_flooding config fc chat_id user_id now =
        (int (length (filter (in_window now (window_seconds config))
                        (recorded fc chat_id user_id @ [now]))) > max_messages config,
         fc((chat_id, user_id) \<mapsto>
              filter (in_window now (window_seconds config))
                (recorded fc chat_id user_id @ [now]))))
   \<and> (\<not> enabled config \<longrightarrow> is_flooding config fc chat_id user_id now = (False, fc))"
proof (intro conjI impI)
  assume a: "enabled config \<and> sorted (recorded fc chat_id user_id @ [now])"
  then have "popleft_old now (window_seconds config) (recorded fc chat_id user_id @ [now])
             = filter (in_window now (window_seconds config)) (recorded fc chat_id user_id @ [now])"
    by (simp only: popleft_old_dropWhile dropWhile_filter_sorted)
  with a show "is_flooding config fc chat_id user_id now =
        (int (length (filter (in_window now (window_seconds config))
                        (recorded fc chat_id user_id @ [now]))) > max_messages config,
         fc((chat_id, user_id) \<mapsto>
              filter (in_window now (window_seconds config))
                (recorded fc chat_id user_id @ [now])))"
    by (simp add: is_flooding_def recorded_def Let_def)
next
  assume "\<not> enabled config"
  then show "is_flooding config fc chat_id user_id now = (False, fc)"
    by (simp add: is_flooding_def)
qed

text \<open>
  The spec's example, \<open>max_messages = 5\<close> and a window of 10 seconds: with the timestamps
  0, 1, 2, 3, 4 recorded, the sixth message at time 5 is a flood; the fifth message at time
  4 is not; a disabled configuration returns false and records nothing.
\<close>

lemma is_flooding_window_example:
  "is_flooding \<lparr>enabled = True, max_messages = 5, window_seconds = 10\<rparr>
       (Map.empty((1, 7) \<mapsto> [0, 1, 2, 3, 4])) 1 7 5
     = (True, Map.empty((1, 7) \<mapsto> [0, 1, 2, 3, 4, 5]))
   \<and> is_flooding \<lparr>enabled = True, max_messages = 5, window_seconds = 10\<rparr>
       (Map.empty((1, 7) \<mapsto> [0, 1, 2, 3])) 1 7 4
     = (False, Map.empty((1, 7) \<mapsto> [0, 1, 2, 3, 4]))
   \<and> is_flooding \<lparr>enabled = False, max_messages = 5, window_seconds = 10\<rparr>
       (Map.empty((1, 7) \<mapsto> [0, 1, 2, 3, 4])) 1 7 5
     = (False, Map.empty((1, 7) \<mapsto> [0, 1, 2, 3, 4]))"
  using is_flooding_window [of "\<lparr>enabled = True, max_messages = 5, window_seconds = 10\<rparr>"
          "Map.empty((1, 7) \<mapsto> [0, 1, 2, 3, 4])" 1 7 5]
        is_flooding_window [of "\<lparr>enabled = True, max_messages = 5, window_seconds = 10\<rparr>"
          "Map.empty((1, 7) \<mapsto> [0, 1, 2, 3])" 1 7 4]
        is_flooding_window [of "\<lparr>enabled = False, max_messages = 5, window_seconds = 10\<rparr>"
          "Map.empty((1, 7) \<mapsto> [0, 1, 2, 3, 4])" 1 7 5]
  by (simp add: recorded_def in_window_def)

text \<open>
  \<^bold>\<open>C1: the code fails the claim.\<close>  The claim says that the check evicts every timestamp
  strictly older than \<open>now - window_seconds\<close> and counts the rest, for every prior sequence
  and every current time; the comment above the loop says the same
  (\<open>Remove timestamps older than window_seconds\<close>).  The loop pops from the left end only
  and stops at the first timestamp inside the window.  \<open>time.time()\<close> follows the system
  clock and returns a lower value than before when that clock is set back: after checks at
  the times 12 and 11 the deque is \<open>[12, 11]\<close>.  At a check at time 21.5 with a window of
  10 seconds the loop stops at 12, so the timestamp 11, which is older than 11.5, stays;
  the count is 3 and the check reports a flood for \<open>max_messages = 2\<close>, although only two
  timestamps lie inside the window.
\<close>

theorem is_flooding_clock_set_back:
  "snd (is_flooding \<lparr>enabled = True, max_messages = 2, window_seconds = 10\<rparr>
         (snd (is_flooding \<lparr>enabled = True, max_messages = 2, window_seconds = 10\<rparr>
                 Map.empty 1 7 12)) 1 7 11)
     = Map.empty((1, 7) \<mapsto> [12, 11])
   \<and> is_flooding \<lparr>enabled = True, max_messages = 2, window_seconds = 10\<rparr>
       (Map.empty((1, 7) \<mapsto> [12, 11])) 1 7 (43 / 2)
     = (True, Map.empty((1, 7) \<mapsto> [12, 11, 43 / 2]))
   \<and> \<not> in_window (43 / 2) 10 11
   \<and> \<not> (int (length (filter (in_window (43 / 2) 10) [12, 11, 43 / 2])) > 2)"
  by (simp add: is_flooding_def in_window_def)

section \<open>Properties of the content filter\<close>

lemma startswith_iff: "startswith s p \<longleftrightarrow> (\<exists>ss. s = p @ ss)"
proof
  assume "startswith s p"
  then have "s = p @ drop (length p) s"
    by (metis append_take_drop_id startswith_def)
  then show "\<exists>ss. s = p @ ss" ..
next
  assume "\<exists>ss. s = p @ ss"
  then show "startswith s p" by (auto simp: startswith_def)
qed

lemma py_in_iff: "py_in p s \<longleftrightarrow> (\<exists>ps ss. s = ps @ p @ ss)"
proof (induction s)
  case Nil
  show ?case by auto
next
  case (Cons c cs)
  show ?case
  proof
    assume "py_in p (c # cs)"
    then consider "startswith (c # cs) p" | "py_in p cs" by auto
    then show "\<exists>ps ss. c # cs = ps @ p @ ss"
    proof cases
      case 1
      then obtain ss where "c # cs = p @ ss" by (auto simp: startswith_iff)
      then have "c # cs = [] @ p @ ss" by simp
      then show ?thesis by blast
    next
      case 2
      with Cons.IH obtain ps ss where "cs = ps @ p @ ss" by blast
      then have "c # cs = (c # ps) @ p @ ss" by simp
      then show ?thesis by blast
    qed
  next
    assume "\<exists>ps ss. c # cs = ps @ p @ ss"
    then obtain ps ss where eq: "c # cs = ps @ p @ ss" by blast
    show "py_in p (c # cs)"
    proof (cases ps)
      case Nil
      with eq have "startswith (c # cs) p" by (auto simp: startswith_iff)
      then show ?thesis by simp
    next
      case (Cons a as)
      with eq have "cs = as @ p @ ss" by simp
      with Cons.IH have "py_in p cs" by blast
      then show ?thesis by simp
    qed
  qed
qed

lemmas code_points_defs =
  code_points_def cp_strip_def cp_lower_def py_whitespace_def default_antimat_def
  word_durak_def word_DURAK_def word_loh_def word_ty_def

text \<open>
  \<^bold>\<open>C8, as stated, fails.\<close>  The command test is made on the lower-cased text with the
  white space at its ends removed.  The text \<open>" /ban durak"\<close> (a blank, the command, the
  Russian word of the default list) does not start with a command prefix, the filter is
  enabled, the text is not empty and its lower-cased form contains the blacklisted word;
  the claim says the result is true, the code returns false.
\<close>

theorem is_blacklisted_content_strip_counterexample:
  "\<not> is_blacklisted_content code_points default_antimat
       (0x20 # map of_char ''/ban '' @ word_durak)
   \<and> antimat_enabled default_antimat
   \<and> 0x20 # map of_char ''/ban '' @ word_durak \<noteq> []
   \<and> \<not> starts_with_command code_points (0x20 # map of_char ''/ban '' @ word_durak)
   \<and> word_durak \<in> set (blacklist_words default_antimat)
   \<and> str_lower code_points (0x20 # map of_char ''/ban '' @ word_durak)
       = (0x20 # map of_char ''/ban '') @ word_durak @ []"
  by (simp add: is_blacklisted_content_def is_command_def starts_with_command_def commands_def
      startswith_def code_points_defs)

text \<open>
  \<^bold>\<open>C8, amended.\<close>  For every text, \<open>is_blacklisted_content\<close> returns false if the filter
  is disabled, the text is empty, or the lower-cased text with the white space at its ends
  removed starts with a (lower-cased) recognized command prefix; otherwise it returns true if
  and only if the lower-cased text contains some configured blacklist word or some
  configured blacklist link fragment as a substring.  This holds for strings over any
  characters and whatever \<open>lower\<close> and \<open>strip\<close> do, so for the strings of Python.
\<close>

theorem is_blacklisted_content_iff:
  "is_blacklisted_content S cfg text \<longleftrightarrow>
     antimat_enabled cfg \<and> text \<noteq> [] \<and>
     \<not> (\<exists>command \<in> set commands. \<exists>rest.
          str_strip S (str_lower S text) = str_lower S (str_literal S command) @ rest) \<and>
     (\<exists>fragment \<in> set (blacklist_words cfg) \<union> set (blacklist_links cfg).
        \<exists>before after. str_lower S text = before @ fragment @ after)"
proof -
  have cmd: "is_command S text \<longleftrightarrow>
      (\<exists>command \<in> set commands. \<exists>rest.
          str_strip S (str_lower S text) = str_lower S (str_literal S command) @ rest)"
    by (simp add: is_command_def startswith_iff)
  show ?thesis
    unfolding is_blacklisted_content_def cmd [symmetric] py_in_iff
    by auto
qed

text \<open>Witness: the three examples of the spec in Russian letters, with the default
  configuration, and the same word with the filter disabled.\<close>

theorem is_blacklisted_content_iff_witness:
  "\<not> is_blacklisted_content code_points default_antimat (map of_char ''/ban @x '' @ word_durak)
   \<and> is_blacklisted_content code_points default_antimat (word_ty @ [0x20] @ word_durak)
   \<and> is_blacklisted_content code_points default_antimat word_DURAK
   \<and> \<not> is_blacklisted_content code_points (default_antimat\<lparr>antimat_enabled := False\<rparr>) word_DURAK"
proof -
  have a: "str_strip code_points (str_lower code_points (map of_char ''/ban @x '' @ word_durak))
           = str_lower code_points (str_literal code_points ''/ban'')
             @ map of_char '' @x '' @ word_durak"
    by (simp add: code_points_defs)
  have "''/ban'' \<in> set commands" by (simp add: commands_def)
  with a have 1:
    "\<not> is_blacklisted_content code_points default_antimat (map of_char ''/ban @x '' @ word_durak)"
    using is_blacklisted_content_iff
      [of code_points default_antimat "map of_char ''/ban @x '' @ word_durak"]
    by blast
  have e: "antimat_enabled default_antimat" "word_durak \<in> set (blacklist_words default_antimat)"
    by (simp_all add: default_antimat_def)
  have b: "str_lower code_points (word_ty @ [0x20] @ word_durak)
           = (word_ty @ [0x20]) @ word_durak @ []"
    by (simp add: code_points_defs)
  have c: "\<not> (\<exists>command \<in> set commands. \<exists>rest.
              str_strip code_points (str_lower code_points (word_ty @ [0x20] @ word_durak))
              = str_lower code_points (str_literal code_points command) @ rest)"
    by (simp add: commands_def code_points_defs)
  have n: "word_ty @ [0x20] @ word_durak \<noteq> []" by (simp add: word_ty_def)
  have 2: "is_blacklisted_content code_points default_antimat (word_ty @ [0x20] @ word_durak)"
    using is_blacklisted_content_iff
      [of code_points default_antimat "word_ty @ [0x20] @ word_durak"] e b c n
    by blast
  have b': "str_lower code_points word_DURAK = [] @ word_durak @ []"
    by (simp add: code_points_defs)
  have c': "\<not> (\<exists>command \<in> set commands. \<exists>rest.
              str_strip code_points (str_lower code_points word_DURAK)
              = str_lower code_points (str_literal code_points command) @ rest)"
    by (simp add: commands_def code_points_defs)
  have n': "word_DURAK \<noteq> []" by (simp add: word_DURAK_def)
  have 3: "is_blacklisted_content code_points default_antimat word_DURAK"
    using is_blacklisted_content_iff [of code_points default_antimat word_DURAK] e b' c' n'
    by blast
  have 4: "\<not> is_blacklisted_content code_points (default_antimat\<lparr>antimat_enabled := False\<rparr>)
              word_DURAK"
    using is_blacklisted_content_iff
      [of code_points "default_antimat\<lparr>antimat_enabled := False\<rparr>" word_DURAK]
    by simp
  from 1 2 3 4 show ?thesis by blast
qed

section \<open>Lemmas on traces\<close>

lemma obs_append [simp]:
  "notices (xs @ ys) = notices xs @ notices ys"
  "bans (xs @ ys) = bans xs @ bans ys"
  "restricts (xs @ ys) = restricts xs @ restricts ys"
  by (simp_all add: notices_def bans_def restricts_def)

lemma obs_Cons [simp]:
  "notices (x # xs) = notice_of x @ notices xs"
  "bans (x # xs) = ban_of x @ bans xs"
  "restricts (x # xs) = restrict_of x @ restricts xs"
  by (simp_all add: notices_def bans_def restricts_def)

lemma obs_Nil [simp]: "notices [] = []" "bans [] = []" "restricts [] = []"
  by (simp_all add: notices_def bans_def restricts_def)

lemma obs_delete_task [simp]:
  "notices (delete_task e m n d) = []"
  "bans (delete_task e m n d) = []"
  "restricts (delete_task e m n d) = []"
  by (auto simp: delete_task_def split: outcome.splits)

lemma since_self [simp]: "since w w = []"
  by (simp add: since_def)

lemma since_trace: "trace w' = trace w @ t \<Longrightarrow> since w w' = t"
  by (simp add: since_def)

lemmas example_defs =
  env0_def world0_def warn_msg_def ann_def bob_def ban_fails_def ban_refused_def
  db_admin_42_def chat_admin_42_def mute_msg_def unmute_msg_def warn_ann_msg_def

section \<open>Properties of the warn command\<close>

lemma warn_send_eq:
  "warn_send_and_auto_delete e m n d w =
     w\<lparr>trace := trace w @ SendMessage (chat m) n # delete_task e m n d\<rparr>"
  by (auto simp: warn_send_and_auto_delete_def perform_def emit_def delete_task_def
      split: outcome.splits)

lemma warn_command_applies:
  assumes "warn_applies e m uid"
  shows "warn_command e m w =
           warn_count e m uid (snd (warn_extract_user_info e m))
             (emit (DeleteMessage (chat m) (message_id m)) w)"
  using assms
  by (cases "warn_extract_user_info e m"; cases "tg e (DeleteMessage (chat m) (message_id m))")
     (auto simp: warn_applies_def warn_command_def delete_command_message_def perform_def)

lemma warn_first:
  assumes "warn_applies e m uid" "warns w uid = None"
  shows "warns (fst (warn_command e m w)) uid = Some 1"
    and "since w (fst (warn_command e m w)) =
          DeleteMessage (chat m) (message_id m)
          # SendMessage (chat m) (FirstWarning (warned_name e m))
          # delete_task e m (FirstWarning (warned_name e m)) (WARN_MESSAGE_DELETE_DELAY e)"
  using assms(2)
  by (simp_all add: warn_command_applies [OF assms(1)] warn_count_def warn_send_eq emit_def
        since_def warned_name_def Let_def)

lemma warn_second:
  assumes "warn_applies e m uid" "warns w uid = Some 1"
  shows "warns (fst (warn_command e m w)) uid = Some 2"
    and "since w (fst (warn_command e m w)) =
          DeleteMessage (chat m) (message_id m)
          # SendMessage (chat m) (SecondWarning (warned_name e m))
          # delete_task e m (SecondWarning (warned_name e m)) (WARN_MESSAGE_DELETE_DELAY e)"
  using assms(2)
  by (simp_all add: warn_command_applies [OF assms(1)] warn_count_def warn_send_eq emit_def
        since_def warned_name_def Let_def)

lemma warn_third:
  assumes "warn_applies e m uid" "warns w uid = Some c" "c \<ge> 2"
    "tg e (BanChatMember (chat m) uid) \<noteq> Failed"
  shows "warns (fst (warn_command e m w)) uid = None"
    and "bans (since w (fst (warn_command e m w))) = [(chat m, uid)]"
  using assms(2-)
  by (auto simp add: warn_command_applies [OF assms(1)] warn_count_def warn_send_eq emit_def
        since_def Let_def perform_def split: outcome.splits)

lemma warn_third_refused:
  assumes "warn_applies e m uid" "warns w uid = Some 2"
    "tg e (BanChatMember (chat m) uid) = Refused"
  shows "notices (since w (fst (warn_command e m w))) = [BanFailed]"
  using assms(2-)
  by (auto simp add: warn_command_applies [OF assms(1)] warn_count_def warn_send_eq emit_def
        since_def Let_def perform_def split: outcome.splits)

lemma warn_ban_failed:
  assumes "warn_applies e m uid" "warns w uid = Some c" "c \<ge> 2"
    "tg e (BanChatMember (chat m) uid) = Failed"
  shows "warns (fst (warn_command e m w)) uid = Some (c + 1)"
    and "bans (since w (fst (warn_command e m w))) = [(chat m, uid)]"
  using assms(2-)
  by (auto simp add: warn_command_applies [OF assms(1)] warn_count_def warn_send_eq emit_def
        since_def Let_def perform_def split: outcome.splits)

lemmas warn_eval =
  warn_command_def warn_count_def delete_command_message_def
  warn_send_and_auto_delete_def perform_def emit_def is_user_admin_def
  warn_extract_user_info_def mention_of_def name_or_def shown_def truthy_def Let_def since_def
  warned_name_def

lemma warn_applies_example: "warn_applies env0 warn_msg 42"
  by (simp add: warn_applies_def warn_eval example_defs)

lemma warn_applies_ban_fails: "warn_applies (env0\<lparr>tg := ban_fails\<rparr>) warn_msg 42"
  by (simp add: warn_applies_def warn_eval example_defs)

lemma warn_applies_ban_refused: "warn_applies (env0\<lparr>tg := ban_refused\<rparr>) warn_msg 42"
  by (simp add: warn_applies_def warn_eval example_defs)

lemma after_two_warns_count: "warns after_two_warns 42 = Some 2"
  unfolding after_two_warns_def
  by (rule warn_second(1) [OF warn_applies_example])
     (rule warn_first(1) [OF warn_applies_example], simp add: world0_def)

text \<open>
  \<^bold>\<open>C4, as stated, fails.\<close>  The handler resets the count after a ban call that returned or
  that raised \<open>TelegramBadRequest\<close> or \<open>TelegramForbiddenError\<close>.  When the ban call of
  the third warning raises an exception of another class, the outer handler reports the error
  and the count stays at 3; the fourth warning counts 4, which is again \<open>\<ge> 3\<close>, and bans a
  second time.  Here user 42 is warned by the administrator 1 in chat -100.
\<close>

theorem warn_escalation_ban_fails_counterexample:
  "warn_applies env0 warn_msg 42
   \<and> warn_applies (env0\<lparr>tg := ban_fails\<rparr>) warn_msg 42
   \<and> warns world0 42 = None
   \<and> warns after_two_warns 42 = Some 2
   \<and> bans (since after_two_warns third_warn_ban_fails) = [(- 100, 42)]
   \<and> warns third_warn_ban_fails 42 = Some 3
   \<and> bans (since third_warn_ban_fails (fst (warn_command env0 warn_msg third_warn_ban_fails)))
       = [(- 100, 42)]
   \<and> warns (fst (warn_command env0 warn_msg third_warn_ban_fails)) 42 \<noteq> Some 1"
proof -
  have c: "chat warn_msg = - 100" by (simp add: warn_msg_def)
  have f: "tg (env0\<lparr>tg := ban_fails\<rparr>) (BanChatMember (chat warn_msg) 42) = Failed"
    by (simp add: ban_fails_def)
  have ok: "tg env0 (BanChatMember (chat warn_msg) 42) \<noteq> Failed"
    by (simp add: env0_def)
  have 3: "warns third_warn_ban_fails 42 = Some 3"
    unfolding third_warn_ban_fails_def
    using warn_ban_failed(1) [OF warn_applies_ban_fails after_two_warns_count _ f] by simp
  have b3: "bans (since after_two_warns third_warn_ban_fails) = [(- 100, 42)]"
    unfolding third_warn_ban_fails_def
    using warn_ban_failed(2) [OF warn_applies_ban_fails after_two_warns_count _ f] c by simp
  have 4: "bans (since third_warn_ban_fails (fst (warn_command env0 warn_msg third_warn_ban_fails)))
       = [(- 100, 42)]"
    using warn_third(2) [OF warn_applies_example 3 _ ok] c by simp
  have 5: "warns (fst (warn_command env0 warn_msg third_warn_ban_fails)) 42 \<noteq> Some 1"
    using warn_third(1) [OF warn_applies_example 3 _ ok] by simp
  show ?thesis
    using warn_applies_example warn_applies_ban_fails after_two_warns_count 3 b3 4 5
    by (simp add: world0_def)
qed

text \<open>
  \<^bold>\<open>C4, amended.\<close>  For a user with no prior warnings, three sequential warn operations
  (with an authorized actor and a resolved non-admin target) produce informational notices at
  counts 1 and 2 and, at count 3, exactly one ban call; when that ban call returns or raises
  bad request or forbidden, the user's warning count is then reset to zero, and a fourth warn
  on the same user after the reset yields count 1 and its first-warning notice, with no ban
  call.
\<close>

theorem warn_escalation:
  assumes "warns w0 uid = None"
    and "warn_applies e1 m1 uid" and "warn_applies e2 m2 uid"
    and "warn_applies e3 m3 uid" and "warn_applies e4 m4 uid"
    and "tg e3 (BanChatMember (chat m3) uid) \<noteq> Failed"
  defines "w1 \<equiv> fst (warn_command e1 m1 w0)"
    and "w2 \<equiv> fst (warn_command e2 m2 (fst (warn_command e1 m1 w0)))"
    and "w3 \<equiv> fst (warn_command e3 m3 (fst (warn_command e2 m2 (fst (warn_command e1 m1 w0)))))"
    and "w4 \<equiv> fst (warn_command e4 m4
                 (fst (warn_command e3 m3 (fst (warn_command e2 m2 (fst (warn_command e1 m1 w0)))))))"
  shows "warns w1 uid = Some 1 \<and> notices (since w0 w1) = [FirstWarning (warned_name e1 m1)]
           \<and> bans (since w0 w1) = []
       \<and> warns w2 uid = Some 2 \<and> notices (since w1 w2) = [SecondWarning (warned_name e2 m2)]
           \<and> bans (since w1 w2) = []
       \<and> bans (since w2 w3) = [(chat m3, uid)] \<and> warns w3 uid = None
       \<and> warns w4 uid = Some 1 \<and> notices (since w3 w4) = [FirstWarning (warned_name e4 m4)]
           \<and> bans (since w3 w4) = []"
proof -
  have c1: "warns w1 uid = Some 1"
    unfolding w1_def by (rule warn_first(1) [OF assms(2) assms(1)])
  have t1: "notices (since w0 w1) = [FirstWarning (warned_name e1 m1)]" "bans (since w0 w1) = []"
    unfolding w1_def by (simp_all add: warn_first(2) [OF assms(2) assms(1)])
  have w2: "w2 = fst (warn_command e2 m2 w1)" by (simp add: w1_def w2_def)
  have c2: "warns w2 uid = Some 2"
    unfolding w2 by (rule warn_second(1) [OF assms(3) c1])
  have t2: "notices (since w1 w2) = [SecondWarning (warned_name e2 m2)]" "bans (since w1 w2) = []"
    unfolding w2 by (simp_all add: warn_second(2) [OF assms(3) c1])
  have w3: "w3 = fst (warn_command e3 m3 w2)" by (simp add: w2_def w3_def)
  have c3: "warns w3 uid = None"
    unfolding w3 using warn_third(1) [OF assms(4) c2 _ assms(6)] by simp
  have t3: "bans (since w2 w3) = [(chat m3, uid)]"
    unfolding w3 using warn_third(2) [OF assms(4) c2 _ assms(6)] by simp
  have w4: "w4 = fst (warn_command e4 m4 w3)" by (simp add: w3_def w4_def)
  have c4: "warns w4 uid = Some 1"
    unfolding w4 by (rule warn_first(1) [OF assms(5) c3])
  have t4: "notices (since w3 w4) = [FirstWarning (warned_name e4 m4)]" "bans (since w3 w4) = []"
    unfolding w4 by (simp_all add: warn_first(2) [OF assms(5) c3])
  from c1 t1 c2 t2 c3 t3 c4 t4 show ?thesis by simp
qed

text \<open>Witness: four warnings of user 42 with a transport that performs every call.\<close>

theorem warn_escalation_witness:
  "warns world0 42 = None \<and> warn_applies env0 warn_msg 42
   \<and> tg env0 (BanChatMember (chat warn_msg) 42) \<noteq> Failed
   \<and> warns after_two_warns 42 = Some 2
   \<and> bans (since after_two_warns (fst (warn_command env0 warn_msg after_two_warns))) = [(- 100, 42)]
   \<and> warns (fst (warn_command env0 warn_msg after_two_warns)) 42 = None
   \<and> warns (fst (warn_command env0 warn_msg (fst (warn_command env0 warn_msg after_two_warns)))) 42
       = Some 1"
proof -
  have a: "warns world0 42 = None" by (simp add: world0_def)
  have b: "tg env0 (BanChatMember (chat warn_msg) 42) \<noteq> Failed" by (simp add: env0_def)
  have c: "chat warn_msg = - 100" by (simp add: warn_msg_def)
  show ?thesis
    using warn_escalation [OF a warn_applies_example warn_applies_example warn_applies_example
        warn_applies_example b] a b warn_applies_example
    by (simp add: after_two_warns_def c)
qed

text \<open>
  \<^bold>\<open>C10.\<close>  When the ban attempt at the third warning raises a transport error (bad request
  or forbidden), the ban was attempted once, the failure is reported, and the user's warning
  count is reset to zero all the same: the next warn operation on that user counts as the
  first warning, sends the first-warning notice and bans nobody.
\<close>

theorem warn_ban_refused_resets:
  assumes "warns w uid = Some 2"
    and "warn_applies e m uid"
    and "tg e (BanChatMember (chat m) uid) = Refused"
    and "warn_applies e' m' uid"
  defines "w3 \<equiv> fst (warn_command e m w)"
    and "w4 \<equiv> fst (warn_command e' m' (fst (warn_command e m w)))"
  shows "bans (since w w3) = [(chat m, uid)] \<and> notices (since w w3) = [BanFailed]
       \<and> warns w3 uid = None
       \<and> warns w4 uid = Some 1 \<and> notices (since w3 w4) = [FirstWarning (warned_name e' m')]
       \<and> bans (since w3 w4) = []"
proof -
  from assms(3) have nf: "tg e (BanChatMember (chat m) uid) \<noteq> Failed" by simp
  have c3: "warns w3 uid = None"
    unfolding w3_def using warn_third(1) [OF assms(2) assms(1) _ nf] by simp
  have t3: "bans (since w w3) = [(chat m, uid)]"
    unfolding w3_def using warn_third(2) [OF assms(2) assms(1) _ nf] by simp
  have n3: "notices (since w w3) = [BanFailed]"
    unfolding w3_def by (rule warn_third_refused [OF assms(2) assms(1) assms(3)])
  have w4: "w4 = fst (warn_command e' m' w3)" by (simp add: w3_def w4_def)
  have c4: "warns w4 uid = Some 1"
    unfolding w4 by (rule warn_first(1) [OF assms(4) c3])
  have t4: "notices (since w3 w4) = [FirstWarning (warned_name e' m')]" "bans (since w3 w4) = []"
    unfolding w4 by (simp_all add: warn_first(2) [OF assms(4) c3])
  from c3 t3 n3 c4 t4 show ?thesis by simp
qed

text \<open>Witness: the third warning of user 42 with a transport that refuses the ban.\<close>

theorem warn_ban_refused_resets_witness:
  "warns after_two_warns 42 = Some 2
   \<and> warn_applies (env0\<lparr>tg := ban_refused\<rparr>) warn_msg 42
   \<and> tg (env0\<lparr>tg := ban_refused\<rparr>) (BanChatMember (chat warn_msg) 42) = Refused
   \<and> warns (fst (warn_command (env0\<lparr>tg := ban_refused\<rparr>) warn_msg after_two_warns)) 42 = None
   \<and> warns (fst (warn_command env0 warn_msg
               (fst (warn_command (env0\<lparr>tg := ban_refused\<rparr>) warn_msg after_two_warns)))) 42
       = Some 1"
proof -
  have b: "tg (env0\<lparr>tg := ban_refused\<rparr>) (BanChatMember (chat warn_msg) 42) = Refused"
    by (simp add: ban_refused_def)
  show ?thesis
    using warn_ban_refused_resets [OF after_two_warns_count warn_applies_ban_refused b
        warn_applies_example] after_two_warns_count warn_applies_ban_refused b
    by simp
qed

section \<open>Administrators are protected from warn, mute and unmute\<close>

lemma mute_send_eq:
  "fst (mute_send_and_auto_delete e m n d w) =
     w\<lparr>trace := trace w @ SendMessage (chat m) n # mute_send_tail e m n d\<rparr>"
  by (auto simp: mute_send_and_auto_delete_def perform_def emit_def mute_send_tail_def
      split: outcome.splits)

lemma obs_mute_send_tail [simp]:
  "notices (mute_send_tail e m n d) = []"
  "bans (mute_send_tail e m n d) = []"
  "restricts (mute_send_tail e m n d) = []"
  by (auto simp: mute_send_tail_def split: outcome.splits)

lemma obs_saved [simp]:
  "notices (snd (snd (mute_extract_user_info e m))) = []"
  "bans (snd (snd (mute_extract_user_info e m))) = []"
  "restricts (snd (snd (mute_extract_user_info e m))) = []"
  by (auto simp: mute_extract_user_info_def split: option.splits query.splits outcome.splits)

text \<open>Each of the three sources makes \<open>is_user_admin\<close> true.\<close>

lemma is_user_admin_sources:
  assumes "uid \<in> set (ADMINS e) \<or> (\<exists>role. db_admin e uid = Found role)
       \<or> get_chat_member e (chat m) uid = Ok Creator
       \<or> get_chat_member e (chat m) uid = Ok Administrator"
  shows "is_user_admin e m uid"
  using assms by (auto simp: is_user_admin_def split: query.splits)

lemma warn_admin_target:
  assumes "is_user_admin e m uid" "fst (warn_extract_user_info e m) = Some uid"
  shows "bans (since w (fst (warn_command e m w))) = []"
    and "restricts (since w (fst (warn_command e m w))) = []"
    and "warns (fst (warn_command e m w)) = warns w"
    and "tg e (DeleteMessage (chat m) (message_id m)) \<noteq> Failed \<Longrightarrow>
         is_user_admin e m (tg_id (from_user m)) \<Longrightarrow> uid \<noteq> 0 \<Longrightarrow>
         notices (since w (fst (warn_command e m w))) = [CannotWarnAdmin]"
  using assms
  by (cases "warn_extract_user_info e m";
      auto simp: warn_command_def delete_command_message_def perform_def emit_def
        warn_send_eq since_def Let_def split: outcome.splits)+

lemma mute_admin_target:
  assumes "is_user_admin e m uid" "fst (mute_extract_user_info e m) = Some uid"
  shows "bans (since w (fst (mute_command e m w))) = []"
    and "restricts (since w (fst (mute_command e m w))) = []"
    and "warns (fst (mute_command e m w)) = warns w"
    and "tg e (DeleteMessage (chat m) (message_id m)) \<noteq> Failed \<Longrightarrow>
         is_user_admin e m (tg_id (from_user m)) \<Longrightarrow> uid \<noteq> 0 \<Longrightarrow>
         notices (since w (fst (mute_command e m w))) = [CannotMuteAdmin]"
  using assms obs_saved [of e m]
  by (cases "mute_extract_user_info e m";
      auto simp: mute_command_def mute_no_target_def delete_command_message_def perform_def
        emit_def mute_send_eq since_def Let_def split: outcome.splits prod.splits)+

lemma unmute_admin_target:
  assumes "is_user_admin e m uid" "fst (mute_extract_user_info e m) = Some uid"
  shows "bans (since w (fst (unmute_command e m w))) = []"
    and "restricts (since w (fst (unmute_command e m w))) = []"
    and "warns (fst (unmute_command e m w)) = warns w"
    and "tg e (DeleteMessage (chat m) (message_id m)) \<noteq> Failed \<Longrightarrow>
         is_user_admin e m (tg_id (from_user m)) \<Longrightarrow> uid \<noteq> 0 \<Longrightarrow>
         notices (since w (fst (unmute_command e m w))) = [CannotUnmuteAdmin]"
  using assms obs_saved [of e m]
  by (cases "mute_extract_user_info e m";
      auto simp: unmute_command_def mute_no_target_def delete_command_message_def perform_def
        emit_def mute_send_eq since_def Let_def split: outcome.splits prod.splits)+

text \<open>
  \<^bold>\<open>C5.\<close>  Let the target \<open>uid\<close> be an administrator by any of the three sources: its id is
  in the configured list, or the store holds an administrator record for it, or its status in
  the chat is creator or administrator.  Then a warn, a mute and an unmute whose target
  resolves to \<open>uid\<close> make no ban call and no restrict call and leave the warning counts as
  they were, whatever the transport and the store answer; and when the actor is authorized
  (and the command message did not fail to be deleted with an unexpected exception), the
  only text sent is the refusal to act on an administrator.
\<close>

theorem admin_target_rejected:
  assumes "uid \<in> set (ADMINS e) \<or> (\<exists>role. db_admin e uid = Found role)
       \<or> get_chat_member e (chat m) uid = Ok Creator
       \<or> get_chat_member e (chat m) uid = Ok Administrator"
  shows "(fst (warn_extract_user_info e m) = Some uid \<longrightarrow>
            bans (since w (fst (warn_command e m w))) = []
          \<and> restricts (since w (fst (warn_command e m w))) = []
          \<and> warns (fst (warn_command e m w)) = warns w
          \<and> (tg e (DeleteMessage (chat m) (message_id m)) \<noteq> Failed
               \<and> is_user_admin e m (tg_id (from_user m)) \<and> uid \<noteq> 0 \<longrightarrow>
             notices (since w (fst (warn_command e m w))) = [CannotWarnAdmin]))
       \<and> (fst (mute_extract_user_info e m) = Some uid \<longrightarrow>
            bans (since w (fst (mute_command e m w))) = []
          \<and> restricts (since w (fst (mute_command e m w))) = []
          \<and> warns (fst (mute_command e m w)) = warns w
          \<and> (tg e (DeleteMessage (chat m) (message_id m)) \<noteq> Failed
               \<and> is_user_admin e m (tg_id (from_user m)) \<and> uid \<noteq> 0 \<longrightarrow>
             notices (since w (fst (mute_command e m w))) = [CannotMuteAdmin]))
       \<and> (fst (mute_extract_user_info e m) = Some uid \<longrightarrow>
            bans (since w (fst (unmute_command e m w))) = []
          \<and> restricts (since w (fst (unmute_command e m w))) = []
          \<and> warns (fst (unmute_command e m w)) = warns w
          \<and> (tg e (DeleteMessage (chat m) (message_id m)) \<noteq> Failed
               \<and> is_user_admin e m (tg_id (from_user m)) \<and> uid \<noteq> 0 \<longrightarrow>
             notices (since w (fst (unmute_command e m w))) = [CannotUnmuteAdmin]))"
proof -
  from assms have a: "is_user_admin e m uid" by (rule is_user_admin_sources)
  show ?thesis
    using warn_admin_target [OF a, of w] mute_admin_target [OF a, of w]
      unmute_admin_target [OF a, of w]
    by blast
qed

text \<open>Witness: the target is an administrator by the configured list (user 1 warned), by
  the store (user 42 muted) and by the chat's roles (user 42 unmuted).\<close>

theorem admin_target_rejected_witness:
  "1 \<in> set (ADMINS env0)
   \<and> fst (warn_extract_user_info env0 warn_ann_msg) = Some 1
   \<and> bans (since world0 (fst (warn_command env0 warn_ann_msg world0))) = []
   \<and> warns (fst (warn_command env0 warn_ann_msg world0)) = warns world0
   \<and> notices (since world0 (fst (warn_command env0 warn_ann_msg world0))) = [CannotWarnAdmin]
   \<and> db_admin (env0\<lparr>db_admin := db_admin_42\<rparr>) 42 = Found ''moderator''
   \<and> fst (mute_extract_user_info (env0\<lparr>db_admin := db_admin_42\<rparr>) mute_msg) = Some 42
   \<and> restricts (since world0 (fst (mute_command (env0\<lparr>db_admin := db_admin_42\<rparr>) mute_msg world0)))
       = []
   \<and> notices (since world0 (fst (mute_command (env0\<lparr>db_admin := db_admin_42\<rparr>) mute_msg world0)))
       = [CannotMuteAdmin]
   \<and> get_chat_member (env0\<lparr>get_chat_member := chat_admin_42\<rparr>) (chat unmute_msg) 42
       = Ok Administrator
   \<and> fst (mute_extract_user_info (env0\<lparr>get_chat_member := chat_admin_42\<rparr>) unmute_msg) = Some 42
   \<and> restricts (since world0
        (fst (unmute_command (env0\<lparr>get_chat_member := chat_admin_42\<rparr>) unmute_msg world0))) = []
   \<and> notices (since world0
        (fst (unmute_command (env0\<lparr>get_chat_member := chat_admin_42\<rparr>) unmute_msg world0)))
       = [CannotUnmuteAdmin]"
proof -
  have 1: "1 \<in> set (ADMINS env0)" by (simp add: env0_def)
  have t1: "fst (warn_extract_user_info env0 warn_ann_msg) = Some 1"
    by (simp add: warn_extract_user_info_def mention_of_def example_defs)
  have p1: "tg env0 (DeleteMessage (chat warn_ann_msg) (message_id warn_ann_msg)) \<noteq> Failed
            \<and> is_user_admin env0 warn_ann_msg (tg_id (from_user warn_ann_msg)) \<and> (1::int) \<noteq> 0"
    by (simp add: is_user_admin_def example_defs)
  have 2: "db_admin (env0\<lparr>db_admin := db_admin_42\<rparr>) 42 = Found ''moderator''"
    by (simp add: db_admin_42_def)
  have t2: "fst (mute_extract_user_info (env0\<lparr>db_admin := db_admin_42\<rparr>) mute_msg) = Some 42"
    by (simp add: mute_extract_user_info_def mention_of_def example_defs)
  have p2: "tg (env0\<lparr>db_admin := db_admin_42\<rparr>) (DeleteMessage (chat mute_msg) (message_id mute_msg))
              \<noteq> Failed
            \<and> is_user_admin (env0\<lparr>db_admin := db_admin_42\<rparr>) mute_msg (tg_id (from_user mute_msg))
            \<and> (42::int) \<noteq> 0"
    by (simp add: is_user_admin_def example_defs)
  have 3: "get_chat_member (env0\<lparr>get_chat_member := chat_admin_42\<rparr>) (chat unmute_msg) 42
       = Ok Administrator"
    by (simp add: chat_admin_42_def)
  have t3: "fst (mute_extract_user_info (env0\<lparr>get_chat_member := chat_admin_42\<rparr>) unmute_msg)
            = Some 42"
    by (simp add: mute_extract_user_info_def mention_of_def example_defs)
  have p3: "tg (env0\<lparr>get_chat_member := chat_admin_42\<rparr>)
               (DeleteMessage (chat unmute_msg) (message_id unmute_msg)) \<noteq> Failed
            \<and> is_user_admin (env0\<lparr>get_chat_member := chat_admin_42\<rparr>) unmute_msg
                (tg_id (from_user unmute_msg))
            \<and> (42::int) \<noteq> 0"
    by (simp add: is_user_admin_def example_defs)
  show ?thesis
    using admin_target_rejected [of 1 env0 warn_ann_msg world0] 1 t1 p1
      admin_target_rejected [of 42 "env0\<lparr>db_admin := db_admin_42\<rparr>" mute_msg world0] 2 t2 p2
      admin_target_rejected [of 42 "env0\<lparr>get_chat_member := chat_admin_42\<rparr>" unmute_msg world0]
      3 t3 p3
    by blast
qed

section \<open>Properties of the verification handler\<close>

lemma captcha_error_obs:
  "\<exists>t. fst (captcha_error e w) = w\<lparr>trace := trace w @ t\<rparr> \<and> list_all is_answer t"
  by (auto simp: captcha_error_def perform_def emit_def split: outcome.splits)

lemma captcha_answer_obs:
  "\<exists>t. fst (captcha_answer e n a w) = w\<lparr>trace := trace w @ t\<rparr> \<and> list_all is_answer t"
  using captcha_error_obs [of e "emit (AnswerCallback n a) w"]
  by (auto simp: captcha_answer_def perform_def emit_def split: outcome.splits)

lemma on_captcha_callback_cases:
  "(\<exists>t. fst (on_captcha_callback e cb w) = w\<lparr>trace := trace w @ t\<rparr> \<and> list_all is_answer t)
   \<or> (\<exists>chat_id uid tok entry. captcha_parts cb = Some (chat_id, uid, tok) \<and> tg_id (cb_from cb) = uid
        \<and> pending_users w uid = Some entry \<and> token entry = tok
        \<and> on_captcha_callback e cb w = captcha_confirm e cb chat_id uid entry w)"
  using captcha_error_obs [of e w] captcha_answer_obs [of e _ True w]
  by (auto simp: on_captcha_callback_def captcha_parts_def split: list.splits option.splits)

lemma is_answer_restricts: "list_all is_answer t \<Longrightarrow> restricts t = []"
proof (induction t)
  case Nil
  show ?case by simp
next
  case (Cons x t)
  then show ?case by (cases x) simp_all
qed

lemma captcha_confirm_pending:
  "pending_users (fst (captcha_confirm e cb chat_id uid entry w)) = pending_users w
   \<or> pending_users (fst (captcha_confirm e cb chat_id uid entry w)) = (pending_users w)(uid := None)"
proof -
  have a: "\<And>w. pending_users (fst (captcha_error e w)) = pending_users w"
    using captcha_error_obs by (metis world.select_convs(3) world.surjective world.update_convs(4))
  have b: "\<And>w n al. pending_users (fst (captcha_answer e n al w)) = pending_users w"
    using captcha_answer_obs by (metis world.select_convs(3) world.surjective world.update_convs(4))
  show ?thesis
    by (auto simp: captcha_confirm_def perform_def emit_def a b Let_def split: outcome.splits)
qed

lemma captcha_confirm_success:
  assumes "tg e (RestrictChatMember chat_id uid normal_permissions) = Ok x"
    "tg e (DeleteMessage chat_id (pending_message_id entry)) \<noteq> Failed"
    "tg e (SendMessage chat_id (Welcome (first_name (cb_from cb)))) = Ok sent"
  shows "pending_users (fst (captcha_confirm e cb chat_id uid entry w)) = (pending_users w)(uid := None)"
    and "restricts (since w (fst (captcha_confirm e cb chat_id uid entry w)))
          = [(chat_id, uid, normal_permissions)]"
proof -
  let ?w8 = "w\<lparr>trace := trace w @ (if kick_task entry then [CancelKickTask uid] else []) @
       [RestrictChatMember chat_id uid normal_permissions,
        DeleteMessage chat_id (pending_message_id entry),
        SendMessage chat_id (Welcome (first_name (cb_from cb))),
        DeleteAfter 3 chat_id sent,
        SaveUser uid (username (cb_from cb)) (first_name (cb_from cb)),
        RecordJoin uid chat_id], pending_users := (pending_users w)(uid := None)\<rparr>"
  have eq: "captcha_confirm e cb chat_id uid entry w = captcha_answer e Confirmed False ?w8"
    using assms
    by (auto simp: captcha_confirm_def perform_def emit_def Let_def split: outcome.splits)
  obtain t where t: "fst (captcha_answer e Confirmed False ?w8) = ?w8\<lparr>trace := trace ?w8 @ t\<rparr>"
    "list_all is_answer t"
    using captcha_answer_obs by blast
  show "pending_users (fst (captcha_confirm e cb chat_id uid entry w)) = (pending_users w)(uid := None)"
    by (simp add: eq t(1))
  show "restricts (since w (fst (captcha_confirm e cb chat_id uid entry w)))
          = [(chat_id, uid, normal_permissions)]"
    using is_answer_restricts [OF t(2)] by (simp add: eq t(1) since_def)
qed

lemma on_captcha_callback_absent:
  assumes "captcha_parts cb = Some (chat_id, uid, tok)" "tg_id (cb_from cb) = uid"
    "pending_users w uid = None"
  shows "on_captcha_callback e cb w = captcha_answer e TimeExpired True w"
  using assms
  by (auto simp: on_captcha_callback_def captcha_parts_def split: list.splits option.splits)

lemma on_captcha_callback_match:
  assumes "captcha_parts cb = Some (chat_id, uid, tok)" "tg_id (cb_from cb) = uid"
    "pending_users w uid = Some entry" "token entry = tok"
  shows "on_captcha_callback e cb w = captcha_confirm e cb chat_id uid entry w"
  using assms
  by (auto simp: on_captcha_callback_def captcha_parts_def split: list.splits option.splits)

lemma captcha_answer_result:
  "snd (captcha_answer e n a w) = Returned
   \<or> ((\<forall>x. tg e (AnswerCallback n a) \<noteq> Ok x)
       \<and> (\<forall>x. tg e (AnswerCallback ConfirmError True) \<noteq> Ok x))"
  by (auto simp: captcha_answer_def captcha_error_def perform_def split: outcome.splits)

lemma is_answer_notices: "list_all is_answer t \<Longrightarrow> notices t = []"
proof (induction t)
  case Nil
  show ?case by simp
next
  case (Cons x t)
  then show ?case by (cases x) simp_all
qed

lemmas captcha_example_defs =
  pending_world_def press_def press_other_chat_def press_by_ann_def press_wrong_token_def
  env0_def world0_def ann_def bob_def

lemma captcha_parts_examples:
  "captcha_parts press = Some (- 100, 42, ''abcd1234'')"
  "captcha_parts press_other_chat = Some (- 200, 42, ''abcd1234'')"
  "captcha_parts press_by_ann = Some (- 100, 42, ''abcd1234'')"
  "captcha_parts press_wrong_token = Some (- 100, 42, ''zzzz9999'')"
  by (simp_all add: captcha_parts_def py_int_def py_strip_def is_space_def digit_val_def
      captcha_example_defs)

text \<open>
  \<^bold>\<open>C6, as stated, fails.\<close>  The handler compares the one who pressed with the user of the
  data and the token of the data with the stored token; the chat of the data is compared
  with nothing.  User 42 is pending in chat -100 with the token \<open>abcd1234\<close>.  A
  confirmation by user 42 that carries this token and the chat -200 is accepted: the entry
  is consumed and the permissions are restored, in chat -200.
\<close>

theorem captcha_other_chat_counterexample:
  "map_option pending_chat_id (pending_users pending_world 42) = Some (- 100)
   \<and> map_option token (pending_users pending_world 42) = Some ''abcd1234''
   \<and> tg_id (cb_from press_other_chat) = 42
   \<and> captcha_parts press_other_chat = Some (- 200, 42, ''abcd1234'')
   \<and> pending_users (fst (on_captcha_callback env0 press_other_chat pending_world)) 42 = None
   \<and> restricts (since pending_world (fst (on_captcha_callback env0 press_other_chat pending_world)))
       = [(- 200, 42, normal_permissions)]"
proof -
  let ?entry = "\<lparr>pending_chat_id = - 100, pending_message_id = 77, kick_task = True,
                token = ''abcd1234''\<rparr>"
  have p: "pending_users pending_world 42 = Some ?entry"
    by (simp add: pending_world_def)
  have a: "tg_id (cb_from press_other_chat) = 42"
    by (simp add: press_other_chat_def bob_def)
  have eq: "on_captcha_callback env0 press_other_chat pending_world
            = captcha_confirm env0 press_other_chat (- 200) 42 ?entry pending_world"
    by (rule on_captcha_callback_match [OF captcha_parts_examples(2) a p]) simp
  have ok: "tg env0 (RestrictChatMember (- 200) 42 normal_permissions) = Ok 500"
    "tg env0 (DeleteMessage (- 200) (pending_message_id ?entry)) \<noteq> Failed"
    "tg env0 (SendMessage (- 200) (Welcome (first_name (cb_from press_other_chat)))) = Ok 500"
    by (simp_all add: env0_def)
  show ?thesis
    using captcha_confirm_success [OF ok, where w = pending_world] p a captcha_parts_examples(2)
    by (simp add: eq)
qed

text \<open>
  \<^bold>\<open>C6, amended.\<close>  A pending user transitions to Verified (permissions restored, entry
  consumed) only when the confirmation's data is well formed, its (user id, token) pair
  matches the stored entry of that user and the one pressing the control is that same user.
  For every confirmation where the actor differs, the token differs or the user has no
  entry, the pending entries are unchanged and the handler does nothing but answer the press
  (no restrict call, no cancelled kick task).  The chat id of the confirmation is not
  compared with the stored entry: when the pair matches and the transport performs the calls,
  the entry is consumed and the permissions are restored in the chat the confirmation names.
\<close>

theorem captcha_guard:
  "(pending_users (fst (on_captcha_callback e cb w)) \<noteq> pending_users w
      \<or> restricts (since w (fst (on_captcha_callback e cb w))) \<noteq> [] \<longrightarrow>
     (\<exists>chat_id uid tok entry.
         captcha_parts cb = Some (chat_id, uid, tok) \<and> tg_id (cb_from cb) = uid
         \<and> pending_users w uid = Some entry \<and> token entry = tok))
   \<and> (captcha_parts cb = Some (chat_id, uid, tok)
        \<and> (tg_id (cb_from cb) \<noteq> uid
             \<or> (\<forall>entry. pending_users w uid = Some entry \<longrightarrow> token entry \<noteq> tok)) \<longrightarrow>
       pending_users (fst (on_captcha_callback e cb w)) = pending_users w
       \<and> list_all is_answer (since w (fst (on_captcha_callback e cb w))))
   \<and> (captcha_parts cb = Some (chat_id, uid, tok) \<and> tg_id (cb_from cb) = uid
        \<and> pending_users w uid = Some entry \<and> token entry = tok
        \<and> tg e (RestrictChatMember chat_id uid normal_permissions) = Ok x
        \<and> tg e (DeleteMessage chat_id (pending_message_id entry)) \<noteq> Failed
        \<and> tg e (SendMessage chat_id (Welcome (first_name (cb_from cb)))) = Ok sent \<longrightarrow>
       pending_users (fst (on_captcha_callback e cb w)) = (pending_users w)(uid := None)
       \<and> restricts (since w (fst (on_captcha_callback e cb w)))
           = [(chat_id, uid, normal_permissions)])"
proof (intro conjI impI)
  assume ch: "pending_users (fst (on_captcha_callback e cb w)) \<noteq> pending_users w
      \<or> restricts (since w (fst (on_captcha_callback e cb w))) \<noteq> []"
  from on_captcha_callback_cases [of e cb w]
  show "\<exists>chat_id uid tok entry.
         captcha_parts cb = Some (chat_id, uid, tok) \<and> tg_id (cb_from cb) = uid
         \<and> pending_users w uid = Some entry \<and> token entry = tok"
  proof
    assume "\<exists>t. fst (on_captcha_callback e cb w) = w\<lparr>trace := trace w @ t\<rparr> \<and> list_all is_answer t"
    then obtain t where t: "fst (on_captcha_callback e cb w) = w\<lparr>trace := trace w @ t\<rparr>"
      "list_all is_answer t" by blast
    have "pending_users (fst (on_captcha_callback e cb w)) = pending_users w"
      by (simp add: t(1))
    moreover have "restricts (since w (fst (on_captcha_callback e cb w))) = []"
      using is_answer_restricts [OF t(2)] by (simp add: t(1) since_def)
    ultimately show ?thesis using ch by simp
  next
    assume "\<exists>chat_id uid tok entry. captcha_parts cb = Some (chat_id, uid, tok)
        \<and> tg_id (cb_from cb) = uid \<and> pending_users w uid = Some entry \<and> token entry = tok
        \<and> on_captcha_callback e cb w = captcha_confirm e cb chat_id uid entry w"
    then show ?thesis by blast
  qed
next
  assume a: "captcha_parts cb = Some (chat_id, uid, tok)
        \<and> (tg_id (cb_from cb) \<noteq> uid
             \<or> (\<forall>entry. pending_users w uid = Some entry \<longrightarrow> token entry \<noteq> tok))"
  from on_captcha_callback_cases [of e cb w] a
  obtain t where t: "fst (on_captcha_callback e cb w) = w\<lparr>trace := trace w @ t\<rparr>"
      "list_all is_answer t" by auto
  show "pending_users (fst (on_captcha_callback e cb w)) = pending_users w"
    by (simp add: t(1))
  show "list_all is_answer (since w (fst (on_captcha_callback e cb w)))"
    using t(2) by (simp add: t(1) since_def)
next
  assume a: "captcha_parts cb = Some (chat_id, uid, tok) \<and> tg_id (cb_from cb) = uid
        \<and> pending_users w uid = Some entry \<and> token entry = tok
        \<and> tg e (RestrictChatMember chat_id uid normal_permissions) = Ok x
        \<and> tg e (DeleteMessage chat_id (pending_message_id entry)) \<noteq> Failed
        \<and> tg e (SendMessage chat_id (Welcome (first_name (cb_from cb)))) = Ok sent"
  then have eq: "on_captcha_callback e cb w = captcha_confirm e cb chat_id uid entry w"
    by (intro on_captcha_callback_match) auto
  from a show "pending_users (fst (on_captcha_callback e cb w)) = (pending_users w)(uid := None)"
    unfolding eq by (intro captcha_confirm_success(1)) auto
  from a show "restricts (since w (fst (on_captcha_callback e cb w)))
           = [(chat_id, uid, normal_permissions)]"
    unfolding eq by (intro captcha_confirm_success(2)) auto
qed

text \<open>Witness: user 42 is pending in chat -100.  The press of user 1 and the press with
  another token change nothing; the press of user 42 with the stored token consumes the
  entry and restores the permissions in chat -100.\<close>

theorem captcha_guard_witness:
  "pending_users (fst (on_captcha_callback env0 press_by_ann pending_world))
     = pending_users pending_world
   \<and> list_all is_answer
        (since pending_world (fst (on_captcha_callback env0 press_by_ann pending_world)))
   \<and> pending_users (fst (on_captcha_callback env0 press_wrong_token pending_world))
     = pending_users pending_world
   \<and> list_all is_answer
        (since pending_world (fst (on_captcha_callback env0 press_wrong_token pending_world)))
   \<and> pending_users (fst (on_captcha_callback env0 press pending_world)) 42 = None
   \<and> restricts (since pending_world (fst (on_captcha_callback env0 press pending_world)))
       = [(- 100, 42, normal_permissions)]"
proof -
  let ?entry = "\<lparr>pending_chat_id = - 100, pending_message_id = 77, kick_task = True,
                token = ''abcd1234''\<rparr>"
  have p: "pending_users pending_world 42 = Some ?entry"
    by (simp add: pending_world_def)
  have 1: "tg_id (cb_from press_by_ann) \<noteq> 42"
    by (simp add: press_by_ann_def ann_def)
  have 2: "\<forall>entry. pending_users pending_world 42 = Some entry \<longrightarrow> token entry \<noteq> ''zzzz9999''"
    by (simp add: p)
  have 3: "tg_id (cb_from press) = 42 \<and> token ?entry = ''abcd1234''
      \<and> tg env0 (RestrictChatMember (- 100) 42 normal_permissions) = Ok 500
      \<and> tg env0 (DeleteMessage (- 100) (pending_message_id ?entry)) \<noteq> Failed
      \<and> tg env0 (SendMessage (- 100) (Welcome (first_name (cb_from press)))) = Ok 500"
    by (simp add: press_def bob_def env0_def)
  show ?thesis
    using captcha_guard [of env0 press_by_ann pending_world "- 100" 42 "''abcd1234''"]
      captcha_guard [of env0 press_wrong_token pending_world "- 100" 42 "''zzzz9999''"]
      captcha_guard [of env0 press pending_world "- 100" 42 "''abcd1234''" ?entry 500 500]
      captcha_parts_examples p 1 2 3
    by simp
qed

text \<open>
  \<^bold>\<open>C7.\<close>  When a confirmation with the valid token succeeds (the one pressing is the user
  of the data, the token is the stored one, and the transport restores the permissions and
  sends the welcome), the permissions are restored once and the pending entry is removed.  A
  second confirmation with the same data, whatever the transport answers, changes no
  dictionary of the process and makes no transport call but acknowledgements of the press:
  no restrict call, no message.  It returns normally; the only exception that can leave
  the handler is the transport's own, when it delivers neither the "time expired" answer nor
  the error answer.
\<close>

theorem captcha_replay_noop:
  fixes e2 :: env
  assumes "captcha_parts cb = Some (chat_id, uid, tok)" and "tg_id (cb_from cb) = uid"
    and "pending_users w uid = Some entry" and "token entry = tok"
    and "tg e1 (RestrictChatMember chat_id uid normal_permissions) = Ok x"
    and "tg e1 (DeleteMessage chat_id (pending_message_id entry)) \<noteq> Failed"
    and "tg e1 (SendMessage chat_id (Welcome (first_name (cb_from cb)))) = Ok sent"
  defines "w1 \<equiv> fst (on_captcha_callback e1 cb w)"
    and "w2 \<equiv> fst (on_captcha_callback e2 cb (fst (on_captcha_callback e1 cb w)))"
  shows "pending_users w1 uid = None
       \<and> restricts (since w w1) = [(chat_id, uid, normal_permissions)]
       \<and> pending_users w2 = pending_users w1 \<and> warns w2 = warns w1 \<and> flood w2 = flood w1
       \<and> list_all is_answer (since w1 w2)
       \<and> restricts (since w1 w2) = [] \<and> notices (since w1 w2) = []
       \<and> (snd (on_captcha_callback e2 cb (fst (on_captcha_callback e1 cb w))) = Returned
            \<or> ((\<forall>y. tg e2 (AnswerCallback TimeExpired True) \<noteq> Ok y)
                \<and> (\<forall>y. tg e2 (AnswerCallback ConfirmError True) \<noteq> Ok y)))"
proof -
  have eq: "on_captcha_callback e1 cb w = captcha_confirm e1 cb chat_id uid entry w"
    by (rule on_captcha_callback_match [OF assms(1-4)])
  have gone: "pending_users w1 uid = None"
    unfolding w1_def eq by (simp add: captcha_confirm_success(1) [OF assms(5-7)])
  have once: "restricts (since w w1) = [(chat_id, uid, normal_permissions)]"
    unfolding w1_def eq by (rule captcha_confirm_success(2) [OF assms(5-7)])
  have second: "on_captcha_callback e2 cb w1 = captcha_answer e2 TimeExpired True w1"
    by (rule on_captcha_callback_absent [OF assms(1,2) gone])
  have w2: "w2 = fst (captcha_answer e2 TimeExpired True w1)"
    by (simp add: w2_def w1_def [symmetric] second)
  obtain t where t: "w2 = w1\<lparr>trace := trace w1 @ t\<rparr>" "list_all is_answer t"
    unfolding w2 using captcha_answer_obs by blast
  have s: "since w1 w2 = t" by (simp add: t(1) since_def)
  have r: "snd (on_captcha_callback e2 cb (fst (on_captcha_callback e1 cb w))) = Returned
            \<or> ((\<forall>y. tg e2 (AnswerCallback TimeExpired True) \<noteq> Ok y)
                \<and> (\<forall>y. tg e2 (AnswerCallback ConfirmError True) \<noteq> Ok y))"
    using captcha_answer_result [of e2 TimeExpired True w1]
    by (simp add: w1_def [symmetric] second)
  from gone once t(2) r show ?thesis
    by (simp add: s is_answer_restricts is_answer_notices) (simp add: t(1))
qed

text \<open>Witness: user 42 presses the button twice.\<close>

theorem captcha_replay_noop_witness:
  "pending_users pending_world 42 \<noteq> None
   \<and> pending_users (fst (on_captcha_callback env0 press pending_world)) 42 = None
   \<and> restricts (since pending_world (fst (on_captcha_callback env0 press pending_world)))
       = [(- 100, 42, normal_permissions)]
   \<and> pending_users (fst (on_captcha_callback env0 press
         (fst (on_captcha_callback env0 press pending_world))))
       = pending_users (fst (on_captcha_callback env0 press pending_world))
   \<and> restricts (since (fst (on_captcha_callback env0 press pending_world))
         (fst (on_captcha_callback env0 press
           (fst (on_captcha_callback env0 press pending_world))))) = []
   \<and> snd (on_captcha_callback env0 press (fst (on_captcha_callback env0 press pending_world)))
       = Returned"
proof -
  let ?entry = "\<lparr>pending_chat_id = - 100, pending_message_id = 77, kick_task = True,
                token = ''abcd1234''\<rparr>"
  have p: "pending_users pending_world 42 = Some ?entry"
    by (simp add: pending_world_def)
  have a: "tg_id (cb_from press) = 42" by (simp add: press_def bob_def)
  have k: "token ?entry = ''abcd1234''" by simp
  have ok: "tg env0 (RestrictChatMember (- 100) 42 normal_permissions) = Ok 500"
    "tg env0 (DeleteMessage (- 100) (pending_message_id ?entry)) \<noteq> Failed"
    "tg env0 (SendMessage (- 100) (Welcome (first_name (cb_from press)))) = Ok 500"
    by (simp_all add: env0_def)
  have d: "tg env0 (AnswerCallback TimeExpired True) = Ok 500" by (simp add: env0_def)
  show ?thesis
    using captcha_replay_noop [OF captcha_parts_examples(1) a p k ok, of env0] p d
    by simp
qed

section \<open>Properties of the middleware chain\<close>

lemma registered_middlewares_eq:
  "registered_middlewares = [BlacklistMiddleware, AntifloodMiddleware, StatsMiddleware]"
  by (simp add: registered_middlewares_def plugin_order_def plugin_middlewares_def)

lemma dispatch_message_eq:
  "dispatch_message e stats handler =
     BlacklistMiddleware_call e (AntifloodMiddleware_call e (stats handler))"
  by (simp add: dispatch_message_def wrap_middlewares_def registered_middlewares_eq
      call_middleware_def)

lemma BlacklistMiddleware_call_deleted:
  assumes "filter_blacklisted e m"
    and "tg e (DeleteMessage (chat m) (message_id m)) = Ok x"
    and "warnings_enabled (antimat e) \<longrightarrow> tg e (SendMessage (chat m) ContentDeleted) = Ok sent"
  shows "BlacklistMiddleware_call e handler m w =
           (w\<lparr>trace := trace w @ DeleteMessage (chat m) (message_id m) #
                 (if warnings_enabled (antimat e)
                  then [SendMessage (chat m) ContentDeleted, DeleteAfter 3 (chat m) sent]
                  else [])\<rparr>, Returned)"
  using assms
  by (auto simp: BlacklistMiddleware_call_def filter_blacklisted_def perform_def emit_def
      split: option.splits)

lemma BlacklistMiddleware_call_refused:
  assumes "filter_blacklisted e m"
    and "tg e (DeleteMessage (chat m) (message_id m)) = Refused"
    and "warnings_enabled (antimat e) \<longrightarrow> tg e (SendMessage (chat m) ContentForbidden) = Ok sent"
  shows "BlacklistMiddleware_call e handler m w =
           handler m
             (w\<lparr>trace := trace w @ DeleteMessage (chat m) (message_id m) #
                 (if warnings_enabled (antimat e)
                  then [SendMessage (chat m) ContentForbidden, DeleteAfter 3 (chat m) sent]
                  else [])\<rparr>)"
  using assms
  by (auto simp: BlacklistMiddleware_call_def blacklist_cannot_delete_def filter_blacklisted_def
      perform_def emit_def split: option.splits)

lemma BlacklistMiddleware_call_clean:
  assumes "\<not> filter_blacklisted e m"
  shows "BlacklistMiddleware_call e handler m w = handler m w"
  using assms
  by (auto simp: BlacklistMiddleware_call_def filter_blacklisted_def split: option.splits)

lemma bad_msg_blacklisted: "filter_blacklisted env0 bad_msg"
  by (simp add: filter_blacklisted_def is_blacklisted_content_def is_command_def commands_def
      ascii_def py_lower_def char_lower_def py_strip_def is_space_def startswith_def env0_def
      bad_msg_def)

lemma bad_msg_blacklisted_refused: "filter_blacklisted (env0\<lparr>tg := delete_refused\<rparr>) bad_msg"
  using bad_msg_blacklisted by (auto simp: filter_blacklisted_def split: option.splits)

lemma bad_msg_floods: "would_flood env0 bad_msg flooded_world"
  by (simp add: would_flood_def is_flooding_def truthy_def env0_def bad_msg_def bob_def
      flooded_world_def world0_def)

text \<open>
  \<^bold>\<open>C3, as stated, fails.\<close>  \<open>plugin_order\<close> names the blacklist plugin before the antiflood
  plugin, so the content filter is the outer middleware.  User 42 has five messages in the
  window and sends a sixth one with a blacklisted word: the message floods and is
  blacklisted.  The content filter deletes it and sends its warning; the flood detector is
  not called (no flood warning, and the window does not get the timestamp).
\<close>

theorem dispatch_flood_first_counterexample:
  "would_flood env0 bad_msg flooded_world
   \<and> filter_blacklisted env0 bad_msg
   \<and> since flooded_world
        (fst (dispatch_message env0 stats_pass mark_handler bad_msg flooded_world))
       = [DeleteMessage (- 100) 11, SendMessage (- 100) ContentDeleted, DeleteAfter 3 (- 100) 500]
   \<and> flood (fst (dispatch_message env0 stats_pass mark_handler bad_msg flooded_world))
       = flood flooded_world"
proof -
  have d: "tg env0 (DeleteMessage (chat bad_msg) (message_id bad_msg)) = Ok 500"
    and s: "warnings_enabled (antimat env0) \<longrightarrow>
            tg env0 (SendMessage (chat bad_msg) ContentDeleted) = Ok 500"
    by (simp_all add: env0_def)
  have w: "warnings_enabled (antimat env0)" by (simp add: env0_def)
  have c: "chat bad_msg = - 100" "message_id bad_msg = 11" by (simp_all add: bad_msg_def)
  show ?thesis
    using bad_msg_floods bad_msg_blacklisted
    by (simp add: dispatch_message_eq BlacklistMiddleware_call_deleted [OF bad_msg_blacklisted d s]
        w c since_def)
qed

text \<open>
  \<^bold>\<open>C3, amended.\<close>  The middlewares run in the order content filter, flood detector,
  statistics.  For every inbound message the Content Filter stage runs before the Flood
  Detector stage: a message that the content filter finds blacklisted and can delete (and
  warn about, when warnings are enabled) is consumed by the content-filter stage, whether
  it floods or not, and the flood stage neither acts on it nor records it; a message the
  content filter does not find blacklisted goes to the flood detector next.
\<close>

theorem dispatch_content_filter_first:
  "registered_middlewares = [BlacklistMiddleware, AntifloodMiddleware, StatsMiddleware]
   \<and> (filter_blacklisted e m
        \<and> tg e (DeleteMessage (chat m) (message_id m)) = Ok x
        \<and> (warnings_enabled (antimat e) \<longrightarrow> tg e (SendMessage (chat m) ContentDeleted) = Ok sent)
       \<longrightarrow> dispatch_message e stats handler m w =
            (w\<lparr>trace := trace w @ DeleteMessage (chat m) (message_id m) #
                 (if warnings_enabled (antimat e)
                  then [SendMessage (chat m) ContentDeleted, DeleteAfter 3 (chat m) sent]
                  else [])\<rparr>, Returned))
   \<and> (\<not> filter_blacklisted e m
       \<longrightarrow> dispatch_message e stats handler m w = AntifloodMiddleware_call e (stats handler) m w)"
  using BlacklistMiddleware_call_deleted [of e m x sent "AntifloodMiddleware_call e (stats handler)" w]
    BlacklistMiddleware_call_clean [of e m "AntifloodMiddleware_call e (stats handler)" w]
  by (simp add: registered_middlewares_eq dispatch_message_eq)

text \<open>Witness: the flooding, blacklisted message of user 42 stops at the content filter and
  leaves the flood window as it was.\<close>

theorem dispatch_content_filter_first_witness:
  "filter_blacklisted env0 bad_msg
   \<and> tg env0 (DeleteMessage (chat bad_msg) (message_id bad_msg)) = Ok 500
   \<and> tg env0 (SendMessage (chat bad_msg) ContentDeleted) = Ok 500
   \<and> notices (trace (fst (dispatch_message env0 stats_pass mark_handler bad_msg flooded_world)))
       = [ContentDeleted]
   \<and> flood (fst (dispatch_message env0 stats_pass mark_handler bad_msg flooded_world))
       = flood flooded_world
   \<and> snd (dispatch_message env0 stats_pass mark_handler bad_msg flooded_world) = Returned"
proof -
  have d: "tg env0 (DeleteMessage (chat bad_msg) (message_id bad_msg)) = Ok 500"
    and s: "tg env0 (SendMessage (chat bad_msg) ContentDeleted) = Ok 500"
    and w: "warnings_enabled (antimat env0)"
    by (simp_all add: env0_def)
  have t: "trace flooded_world = []" by (simp add: flooded_world_def world0_def)
  show ?thesis
    using dispatch_content_filter_first [of env0 bad_msg 500 500 stats_pass mark_handler
        flooded_world] bad_msg_blacklisted d s w t
    by simp
qed

text \<open>
  \<^bold>\<open>C9, as stated, fails.\<close>  The middleware returns only inside the \<open>try\<close>, after the
  deletion.  When the transport refuses the deletion (no permission), the handler of the
  exception sends a warning and the middleware goes on to call the rest of the chain: the
  blacklisted message of user 42 is recorded by the flood detector and reaches the handler.
\<close>

theorem blacklist_refused_continues_counterexample:
  "filter_blacklisted (env0\<lparr>tg := delete_refused\<rparr>) bad_msg
   \<and> tg (env0\<lparr>tg := delete_refused\<rparr>) (DeleteMessage (chat bad_msg) (message_id bad_msg)) = Refused
   \<and> trace (fst (BlacklistMiddleware_call (env0\<lparr>tg := delete_refused\<rparr>) mark_handler bad_msg world0))
       = [DeleteMessage (- 100) 11, SendMessage (- 100) ContentForbidden,
          DeleteAfter 3 (- 100) 500, Handled 11]
   \<and> trace (fst (dispatch_message (env0\<lparr>tg := delete_refused\<rparr>) stats_pass mark_handler
                  bad_msg world0))
       = [DeleteMessage (- 100) 11, SendMessage (- 100) ContentForbidden,
          DeleteAfter 3 (- 100) 500, Handled 11]
   \<and> flood (fst (dispatch_message (env0\<lparr>tg := delete_refused\<rparr>) stats_pass mark_handler
                  bad_msg world0)) (- 100, 42) = Some [5]"
proof -
  let ?e = "env0\<lparr>tg := delete_refused\<rparr>"
  have d: "tg ?e (DeleteMessage (chat bad_msg) (message_id bad_msg)) = Refused"
    and s: "warnings_enabled (antimat ?e) \<longrightarrow>
            tg ?e (SendMessage (chat bad_msg) ContentForbidden) = Ok 500"
    by (simp_all add: delete_refused_def)
  have w: "warnings_enabled (antimat env0)" by (simp add: env0_def)
  have c: "chat bad_msg = - 100" "message_id bad_msg = 11" "msg_text bad_msg = Some ''ty DURAK''"
    "tg_id (from_user bad_msg) = 42"
    by (simp_all add: bad_msg_def bob_def)
  have a: "antispam env0 = \<lparr>enabled = True, max_messages = 5, window_seconds = 10\<rparr>"
    "clock env0 = 5"
    by (simp_all add: env0_def)
  show ?thesis
    using bad_msg_blacklisted_refused d
    by (simp add: dispatch_message_eq
        BlacklistMiddleware_call_refused [OF bad_msg_blacklisted_refused d s] w c a
        AntifloodMiddleware_call_def is_flooding_def truthy_def stats_pass_def mark_handler_def
        emit_def world0_def)
qed

text \<open>
  \<^bold>\<open>C9, amended.\<close>  For every message the Content Filter classifies as blacklisted, the
  filter first tries to delete it.  When the deletion succeeds (and, with warnings enabled,
  the warning is sent), processing of the message stops at the filter stage: the warning
  is issued exactly when warnings are enabled, and no later dispatch stage runs on the
  message.  When the deletion is refused for lack of permission, the filter issues a
  visible warning (when warnings are enabled) and then hands the message to the later
  stages.
\<close>

theorem blacklist_stops_when_deleted:
  assumes "filter_blacklisted e m"
  shows "(tg e (DeleteMessage (chat m) (message_id m)) = Ok x
          \<and> (warnings_enabled (antimat e) \<longrightarrow> tg e (SendMessage (chat m) ContentDeleted) = Ok sent)
         \<longrightarrow> BlacklistMiddleware_call e handler m w =
              (w\<lparr>trace := trace w @ DeleteMessage (chat m) (message_id m) #
                   (if warnings_enabled (antimat e)
                    then [SendMessage (chat m) ContentDeleted, DeleteAfter 3 (chat m) sent]
                    else [])\<rparr>, Returned))
       \<and> (tg e (DeleteMessage (chat m) (message_id m)) = Refused
          \<and> (warnings_enabled (antimat e) \<longrightarrow> tg e (SendMessage (chat m) ContentForbidden) = Ok sent)
         \<longrightarrow> BlacklistMiddleware_call e handler m w =
              handler m
                (w\<lparr>trace := trace w @ DeleteMessage (chat m) (message_id m) #
                   (if warnings_enabled (antimat e)
                    then [SendMessage (chat m) ContentForbidden, DeleteAfter 3 (chat m) sent]
                    else [])\<rparr>))"
  using BlacklistMiddleware_call_deleted [OF assms, of x sent handler w]
    BlacklistMiddleware_call_refused [OF assms, of sent handler w]
  by blast

text \<open>Witness: the blacklisted message of user 42, deleted by one transport and refused
  deletion by the other.\<close>

theorem blacklist_stops_when_deleted_witness:
  "filter_blacklisted env0 bad_msg
   \<and> tg env0 (DeleteMessage (chat bad_msg) (message_id bad_msg)) = Ok 500
   \<and> BlacklistMiddleware_call env0 mark_handler bad_msg world0
       = (world0\<lparr>trace := [DeleteMessage (- 100) 11, SendMessage (- 100) ContentDeleted,
                           DeleteAfter 3 (- 100) 500]\<rparr>, Returned)
   \<and> tg (env0\<lparr>tg := delete_refused\<rparr>) (DeleteMessage (chat bad_msg) (message_id bad_msg)) = Refused
   \<and> BlacklistMiddleware_call (env0\<lparr>tg := delete_refused\<rparr>) mark_handler bad_msg world0
       = (world0\<lparr>trace := [DeleteMessage (- 100) 11, SendMessage (- 100) ContentForbidden,
                           DeleteAfter 3 (- 100) 500, Handled 11]\<rparr>, Returned)"
proof -
  let ?e = "env0\<lparr>tg := delete_refused\<rparr>"
  have d: "tg env0 (DeleteMessage (chat bad_msg) (message_id bad_msg)) = Ok 500"
    and s: "tg env0 (SendMessage (chat bad_msg) ContentDeleted) = Ok 500"
    and w: "warnings_enabled (antimat env0)"
    by (simp_all add: env0_def)
  have d': "tg ?e (DeleteMessage (chat bad_msg) (message_id bad_msg)) = Refused"
    and s': "tg ?e (SendMessage (chat bad_msg) ContentForbidden) = Ok 500"
    and w': "warnings_enabled (antimat ?e)"
    by (simp_all add: delete_refused_def env0_def)
  have c: "chat bad_msg = - 100" "message_id bad_msg = 11" by (simp_all add: bad_msg_def)
  have t: "trace world0 = []" by (simp add: world0_def)
  show ?thesis
    using blacklist_stops_when_deleted [OF bad_msg_blacklisted, of 500 500 mark_handler world0]
      blacklist_stops_when_deleted [OF bad_msg_blacklisted_refused, of 500 500 mark_handler world0]
      bad_msg_blacklisted d s w d' s' w' c t
    by (simp add: mark_handler_def emit_def)
qed

section \<open>Properties of the scheduled-post sweep\<close>

lemma sweep_rows_length [simp]: "length (fst (sweep_rows now send posts)) = length posts"
  by (induction posts) auto

lemma sweep_rows_nth:
  "i < length posts \<Longrightarrow>
   fst (sweep_rows now send posts) ! i =
     (if is_due now (posts ! i) then fst (process_post now send (posts ! i)) else posts ! i)"
proof (induction posts arbitrary: i)
  case Nil
  then show ?case by simp
next
  case (Cons p ps)
  then show ?case by (cases i) auto
qed

lemma sweep_rows_calls:
  "snd (sweep_rows now send posts) =
     concat (map (\<lambda>p. snd (process_post now send p)) (filter (is_due now) posts))"
  by (induction posts) auto

lemma process_post_id [simp]: "post_id (fst (process_post now send p)) = post_id p"
  by (auto simp: process_post_def split: option.splits outcome.splits)

lemma process_post_calls: "(i, c) \<in> set (snd (process_post now send p)) \<Longrightarrow> i = post_id p"
  by (auto simp: process_post_def split: option.splits outcome.splits)

lemma process_post_status:
  "status (fst (process_post now send p)) = Published \<or> status (fst (process_post now send p)) = FailedPost"
  by (auto simp: process_post_def split: option.splits outcome.splits)

lemma process_post_sent:
  "send_call_of p = Some c \<Longrightarrow> send c = Ok mid \<Longrightarrow>
   process_post now send p =
     (p\<lparr>status := Published, published_at := Some now, telegram_message_id := Some mid\<rparr>,
      [(post_id p, c)])"
  by (simp add: process_post_def)

lemma sweep_rows_ids [simp]: "map post_id (fst (sweep_rows now send posts)) = map post_id posts"
  by (induction posts) auto

lemma sweep_rows_call_ids:
  "map fst (snd (sweep_rows now send posts)) =
     map post_id (filter (\<lambda>p. is_due now p \<and> send_call_of p \<noteq> None) posts)"
  by (induction posts) (auto simp: process_post_def split: option.splits outcome.splits)

lemma check_length [simp]: "length (fst (check_and_send_posts now db send posts)) = length posts"
  by (simp add: check_and_send_posts_def)

lemma check_ids [simp]: "map post_id (fst (check_and_send_posts now db send posts)) = map post_id posts"
  by (simp add: check_and_send_posts_def)

lemma check_not_due:
  "i < length posts \<Longrightarrow> \<not> is_due now (posts ! i) \<Longrightarrow>
   fst (check_and_send_posts now db send posts) ! i = posts ! i"
  by (simp add: check_and_send_posts_def sweep_rows_nth)

lemma check_calls_due:
  assumes "(pid, c) \<in> set (snd (check_and_send_posts now db send posts))"
  shows "\<exists>p \<in> set posts. is_due now p \<and> post_id p = pid"
proof -
  from assms have "(pid, c) \<in> set (snd (sweep_rows now send posts))"
    by (auto simp: check_and_send_posts_def split: if_splits)
  then obtain p where "p \<in> set posts" "is_due now p" "(pid, c) \<in> set (snd (process_post now send p))"
    by (auto simp: sweep_rows_calls)
  then show ?thesis using process_post_calls by blast
qed

lemma published_not_due: "status p = Published \<Longrightarrow> \<not> is_due now p"
  by (simp add: is_due_def)

lemma sweeps_published:
  assumes "i < length posts" "status (posts ! i) = Published"
  shows "length (fst (sweeps ticks posts)) = length posts \<and> fst (sweeps ticks posts) ! i = posts ! i
    \<and> (distinct (map post_id posts) \<longrightarrow> post_id (posts ! i) \<notin> fst ` set (snd (sweeps ticks posts)))"
  using assms
proof (induction ticks arbitrary: posts)
  case Nil
  then show ?case by simp
next
  case (Cons tick ticks)
  obtain now db send where tick: "tick = (now, db, send)" by (cases tick) auto
  let ?posts1 = "fst (check_and_send_posts now db send posts)"
  let ?calls1 = "snd (check_and_send_posts now db send posts)"
  have same: "?posts1 ! i = posts ! i"
    using Cons.prems by (simp add: check_not_due published_not_due)
  have len: "i < length ?posts1" using Cons.prems by simp
  have pub: "status (?posts1 ! i) = Published" using Cons.prems same by simp
  note IH = Cons.IH [OF len pub]
  have eq: "sweeps (tick # ticks) posts =
      (fst (sweeps ticks ?posts1), ?calls1 @ snd (sweeps ticks ?posts1))"
    by (simp add: tick split: prod.splits)
  have c1: "distinct (map post_id posts) \<Longrightarrow> post_id (posts ! i) \<notin> fst ` set ?calls1"
  proof
    assume d: "distinct (map post_id posts)" and "post_id (posts ! i) \<in> fst ` set ?calls1"
    then obtain c where "(post_id (posts ! i), c) \<in> set ?calls1" by force
    from check_calls_due [OF this] obtain p where p: "p \<in> set posts" "is_due now p"
      "post_id p = post_id (posts ! i)" by blast
    from p(1) obtain j where j: "j < length posts" "posts ! j = p" by (auto simp: in_set_conv_nth)
    with d p(3) Cons.prems(1) have "j = i"
      by (metis distinct_conv_nth length_map nth_map)
    with j p(2) Cons.prems(2) show False by (simp add: is_due_def)
  qed
  have d1: "distinct (map post_id posts) \<Longrightarrow> distinct (map post_id ?posts1)" by simp
  show ?case
    using IH same c1 d1 by (auto simp: eq image_Un)
qed

lemma sweep_rows_none_due:
  "filter (is_due now) posts = [] \<Longrightarrow> sweep_rows now send posts = (posts, [])"
  by (induction posts) (auto split: if_splits)

lemma check_DbOk: "check_and_send_posts now DbOk send posts = sweep_rows now send posts"
  by (simp add: check_and_send_posts_def sweep_rows_none_due)

lemma sweep_rows_call_in_table:
  "x \<in> set (snd (sweep_rows now send posts)) \<Longrightarrow> fst x \<in> post_id ` set posts"
  by (induction posts) (auto simp: process_post_def split: if_splits option.splits outcome.splits)

lemma process_post_calls_filter:
  "filter (\<lambda>x. fst x = pid) (snd (process_post now send p)) =
     (if post_id p = pid then snd (process_post now send p) else [])"
  by (auto simp: process_post_def split: option.splits outcome.splits)

lemma sweep_rows_calls_of_post:
  assumes "distinct (map post_id posts)" "p \<in> set posts" "is_due now p"
  shows "filter (\<lambda>x. fst x = post_id p) (snd (sweep_rows now send posts))
         = snd (process_post now send p)"
  using assms
proof (induction posts)
  case Nil
  then show ?case by simp
next
  case (Cons q qs)
  show ?case
  proof (cases "q = p")
    case True
    have "filter (\<lambda>x. fst x = post_id p) (snd (sweep_rows now send qs)) = []"
    proof -
      have "\<forall>x \<in> set (snd (sweep_rows now send qs)). fst x \<noteq> post_id p"
        using sweep_rows_call_in_table [of _ now send qs] Cons.prems(1) True by auto
      then show ?thesis by (simp add: filter_empty_conv)
    qed
    with True Cons.prems(3) show ?thesis by (simp add: process_post_calls_filter)
  next
    case False
    with Cons.prems have p: "p \<in> set qs" and ne: "post_id q \<noteq> post_id p" by auto
    from Cons.prems(1) have d: "distinct (map post_id qs)" by simp
    from Cons.IH [OF d p Cons.prems(3)] ne show ?thesis
      by (simp add: process_post_calls_filter)
  qed
qed

lemma process_post_failed:
  "send_call_of p = Some c \<Longrightarrow> \<forall>mid. send c \<noteq> Ok mid \<Longrightarrow>
   process_post now send p = (p\<lparr>status := FailedPost\<rparr>, [(post_id p, c)])"
  by (auto simp: process_post_def split: outcome.splits)

lemma check_not_DbOk: "db \<noteq> DbOk \<Longrightarrow> fst (check_and_send_posts now db send posts) = posts"
  by (cases db) (simp_all add: check_and_send_posts_def)

lemma check_calls_no_query_failure:
  "db \<noteq> QueryFails \<Longrightarrow> snd (check_and_send_posts now db send posts) = snd (sweep_rows now send posts)"
  by (cases db) (auto simp: check_and_send_posts_def sweep_rows_none_due)

text \<open>
  A pending, due post that has a media file whose type is none of \<open>photo\<close>, \<open>video\<close> and
  \<open>document\<close> (the post editor also stores audio, voice and other kinds) falls through the
  chain of \<open>if\<close> and \<open>elif\<close>: no call is made, and the lines after it mark the post
  published, with the publish time and without a message id.  The theorem of C2 below
  says nothing about such posts.
\<close>

lemma process_post_unsupported_media:
  assumes "media_file_id p = Some file" "file \<noteq> []"
    and "media_type p \<noteq> Some ''photo''" "media_type p \<noteq> Some ''video''"
    and "media_type p \<noteq> Some ''document''"
  shows "process_post now send p = (p\<lparr>status := Published, published_at := Some now\<rparr>, [])"
  using assms by (simp add: process_post_def send_call_of_def)

text \<open>
  \<^bold>\<open>C2, as stated, fails.\<close>  The claim speaks of every sweep.  The sweep sends the due
  posts first and commits the new statuses at its end; when the commit raises, the handler
  of the session rolls the batch back.  Post 1 is pending and due, its send returns the
  message 500, the commit fails: the row is still pending, without publish time and message
  id, and the next sweep sends the post a second time.
\<close>

theorem sweep_commit_fails_counterexample:
  "is_due 101 post1
   \<and> send_call_of post1 = Some (SendText (- 100) None (Some ''hello'') None)
   \<and> send_ok (SendText (- 100) None (Some ''hello'') None) = Ok 500
   \<and> check_and_send_posts 101 CommitFails send_ok [post1]
       = ([post1], [(1, SendText (- 100) None (Some ''hello'') None)])
   \<and> status post1 = Pending \<and> telegram_message_id post1 = None
   \<and> snd (sweeps [(101, CommitFails, send_ok), (161, DbOk, send_ok)] [post1])
       = [(1, SendText (- 100) None (Some ''hello'') None),
          (1, SendText (- 100) None (Some ''hello'') None)]"
  by (simp add: check_and_send_posts_def is_due_def process_post_def send_call_of_def
      markup_source_def truthy_def send_ok_def post1_def)

text \<open>
  \<^bold>\<open>C2, amended.\<close>  A sweep at time \<open>now\<close> whose query and commit succeed processes the
  posts whose status is \<open>pending\<close> and whose publish time is not after \<open>now\<close>, and no
  others: for each such post that is sent as text, photo, video or document, a send that
  returns a message sets the status \<open>published\<close> and records the time of the sweep
  and the id of the delivered message, and a send that raises sets the status \<open>failed\<close>
  (the other columns stay).  Unless the query raised, exactly one send call is made for each
  such post (the ids being the table's primary key), with the post's chat, thread, file, text
  and buttons.  When the query or the commit raises, every row is as before the sweep.  In
  every sweep a row that is not pending and due stays as it is and every call made belongs
  to a pending, due post; so a post with the status \<open>published\<close> is the same row after any
  number of later sweeps, and none of them sends it again.
\<close>

theorem sweep_processes_due_posts:
  "(db = DbOk \<longrightarrow>
      (\<forall>i < length posts. \<forall>c.
          is_due now (posts ! i) \<and> send_call_of (posts ! i) = Some c \<longrightarrow>
          (\<forall>mid. send c = Ok mid \<longrightarrow>
             fst (check_and_send_posts now db send posts) ! i
             = (posts ! i)\<lparr>status := Published, published_at := Some now,
                           telegram_message_id := Some mid\<rparr>)
          \<and> ((\<forall>mid. send c \<noteq> Ok mid) \<longrightarrow>
             fst (check_and_send_posts now db send posts) ! i
             = (posts ! i)\<lparr>status := FailedPost\<rparr>)))
   \<and> (db \<noteq> QueryFails \<and> distinct (map post_id posts) \<longrightarrow>
      (\<forall>i < length posts. \<forall>c.
          is_due now (posts ! i) \<and> send_call_of (posts ! i) = Some c \<longrightarrow>
          filter (\<lambda>call. fst call = post_id (posts ! i))
            (snd (check_and_send_posts now db send posts))
          = [(post_id (posts ! i), c)]))
   \<and> (db \<noteq> DbOk \<longrightarrow> fst (check_and_send_posts now db send posts) = posts)
   \<and> (db = QueryFails \<longrightarrow> snd (check_and_send_posts now db send posts) = [])
   \<and> length (fst (check_and_send_posts now db send posts)) = length posts
   \<and> (\<forall>i < length posts. \<not> is_due now (posts ! i) \<longrightarrow>
         fst (check_and_send_posts now db send posts) ! i = posts ! i)
   \<and> (\<forall>call \<in> set (snd (check_and_send_posts now db send posts)).
         \<exists>p \<in> set posts. status p = Pending \<and> publish_time p \<le> now \<and> post_id p = fst call)
   \<and> (\<forall>i < length posts. status (posts ! i) = Published \<longrightarrow>
         fst (sweeps ticks posts) ! i = posts ! i
         \<and> (distinct (map post_id posts) \<longrightarrow>
              post_id (posts ! i) \<notin> fst ` set (snd (sweeps ticks posts))))"
proof (intro conjI impI allI ballI)
  fix i c mid
  assume db: "db = DbOk" and i: "i < length posts"
    and a: "is_due now (posts ! i) \<and> send_call_of (posts ! i) = Some c" and ok: "send c = Ok mid"
  then show "fst (check_and_send_posts now db send posts) ! i
      = (posts ! i)\<lparr>status := Published, published_at := Some now,
                     telegram_message_id := Some mid\<rparr>"
    by (simp add: check_DbOk sweep_rows_nth process_post_sent)
next
  fix i c
  assume db: "db = DbOk" and i: "i < length posts"
    and a: "is_due now (posts ! i) \<and> send_call_of (posts ! i) = Some c"
    and no: "\<forall>mid. send c \<noteq> Ok mid"
  then show "fst (check_and_send_posts now db send posts) ! i = (posts ! i)\<lparr>status := FailedPost\<rparr>"
    by (simp add: check_DbOk sweep_rows_nth process_post_failed)
next
  fix i c
  assume db: "db \<noteq> QueryFails \<and> distinct (map post_id posts)" and i: "i < length posts"
    and a: "is_due now (posts ! i) \<and> send_call_of (posts ! i) = Some c"
  from i have mem: "posts ! i \<in> set posts" by simp
  have "snd (process_post now send (posts ! i)) = [(post_id (posts ! i), c)]"
    using a by (auto simp: process_post_def split: outcome.splits)
  with sweep_rows_calls_of_post [of posts "posts ! i" now send] db mem a
  show "filter (\<lambda>call. fst call = post_id (posts ! i))
            (snd (check_and_send_posts now db send posts))
          = [(post_id (posts ! i), c)]"
    by (simp add: check_calls_no_query_failure)
next
  assume "db \<noteq> DbOk"
  then show "fst (check_and_send_posts now db send posts) = posts" by (rule check_not_DbOk)
next
  assume "db = QueryFails"
  then show "snd (check_and_send_posts now db send posts) = []"
    by (simp add: check_and_send_posts_def)
next
  show "length (fst (check_and_send_posts now db send posts)) = length posts" by simp
next
  fix i
  assume "i < length posts" "\<not> is_due now (posts ! i)"
  then show "fst (check_and_send_posts now db send posts) ! i = posts ! i"
    by (rule check_not_due)
next
  fix call
  assume "call \<in> set (snd (check_and_send_posts now db send posts))"
  then have "(fst call, snd call) \<in> set (snd (check_and_send_posts now db send posts))" by simp
  from check_calls_due [OF this]
  show "\<exists>p \<in> set posts. status p = Pending \<and> publish_time p \<le> now \<and> post_id p = fst call"
    by (simp add: is_due_def)
next
  fix i
  assume "i < length posts" "status (posts ! i) = Published"
  from sweeps_published [OF this, of ticks]
  show "fst (sweeps ticks posts) ! i = posts ! i" by simp
next
  fix i
  assume "i < length posts" "status (posts ! i) = Published" "distinct (map post_id posts)"
  with sweeps_published [of i posts ticks]
  show "post_id (posts ! i) \<notin> fst ` set (snd (sweeps ticks posts))" by simp
qed

text \<open>Witness: the sweep at time 101 sends post 1 once and marks it, leaves post 2 (not yet
  due) and post 3 (published) alone; two sweeps later post 3 is still the same row and was
  not sent.\<close>

theorem sweep_processes_due_posts_witness:
  "is_due 101 post1 \<and> send_call_of post1 = Some (SendText (- 100) None (Some ''hello'') None)
   \<and> send_ok (SendText (- 100) None (Some ''hello'') None) = Ok 500
   \<and> distinct (map post_id [post1, post2, post3])
   \<and> fst (check_and_send_posts 101 DbOk send_ok [post1, post2, post3]) ! 0
       = post1\<lparr>status := Published, published_at := Some 101, telegram_message_id := Some 500\<rparr>
   \<and> snd (check_and_send_posts 101 DbOk send_ok [post1, post2, post3])
       = [(1, SendText (- 100) None (Some ''hello'') None)]
   \<and> fst (check_and_send_posts 101 DbOk send_ok [post1, post2, post3]) ! 1 = post2
   \<and> status post3 = Published
   \<and> fst (sweeps [(101, DbOk, send_ok), (161, DbOk, send_ok)] [post1, post2, post3]) ! 2 = post3
   \<and> 3 \<notin> fst ` set (snd (sweeps [(101, DbOk, send_ok), (161, DbOk, send_ok)]
                               [post1, post2, post3]))"
proof -
  let ?posts = "[post1, post2, post3]"
  let ?ticks = "[(101, DbOk, send_ok), (161, DbOk, send_ok)]"
  let ?c = "SendText (- 100) None (Some ''hello'') None"
  note T = sweep_processes_due_posts [where db = DbOk and now = 101 and posts = ?posts
      and send = send_ok and ticks = ?ticks]
  have due1: "is_due 101 post1" by (simp add: is_due_def post1_def)
  have call1: "send_call_of post1 = Some ?c"
    by (simp add: send_call_of_def markup_source_def truthy_def post1_def)
  have ok: "send_ok ?c = Ok 500" by (simp add: send_ok_def)
  have due2: "\<not> is_due 101 post2" by (simp add: is_due_def post2_def post1_def)
  have pub3: "status post3 = Published" by (simp add: post3_def)
  have due3: "\<not> is_due 101 post3" by (simp add: is_due_def pub3)
  have ids: "distinct (map post_id ?posts)" "post_id post3 = 3" "post_id post1 = 1"
    by (simp_all add: post1_def post2_def post3_def)
  from T have A: "\<forall>i < length ?posts. \<forall>c.
          is_due 101 (?posts ! i) \<and> send_call_of (?posts ! i) = Some c \<longrightarrow>
          (\<forall>mid. send_ok c = Ok mid \<longrightarrow>
             fst (check_and_send_posts 101 DbOk send_ok ?posts) ! i
             = (?posts ! i)\<lparr>status := Published, published_at := Some 101,
                           telegram_message_id := Some mid\<rparr>)"
    by simp
  from T have C: "\<forall>i < length ?posts. \<not> is_due 101 (?posts ! i) \<longrightarrow>
         fst (check_and_send_posts 101 DbOk send_ok ?posts) ! i = ?posts ! i"
    by blast
  from T have D: "\<forall>i < length ?posts. status (?posts ! i) = Published \<longrightarrow>
         fst (sweeps ?ticks ?posts) ! i = ?posts ! i
         \<and> (distinct (map post_id ?posts) \<longrightarrow>
              post_id (?posts ! i) \<notin> fst ` set (snd (sweeps ?ticks ?posts)))"
    by blast
  have a: "fst (check_and_send_posts 101 DbOk send_ok ?posts) ! 0
       = post1\<lparr>status := Published, published_at := Some 101, telegram_message_id := Some 500\<rparr>"
    using A [rule_format, of 0 ?c 500] due1 call1 ok by simp
  have b: "snd (check_and_send_posts 101 DbOk send_ok ?posts) = [(1, ?c)]"
    using due1 due2 due3 call1 ok
    by (simp add: check_DbOk process_post_sent ids)
  have c: "fst (check_and_send_posts 101 DbOk send_ok ?posts) ! 1 = post2"
    using C [rule_format, of 1] due2 by simp
  have d: "fst (sweeps ?ticks ?posts) ! 2 = post3
      \<and> 3 \<notin> fst ` set (snd (sweeps ?ticks ?posts))"
    using D [rule_format, of 2] pub3 ids by simp
  from due1 call1 ok ids(1) a b c pub3 d show ?thesis by simp
qed

end
